theory Spec2Isabelle
  imports Main
begin

section \<open>Administrative endpoints of \<^verbatim>\<open>backend/danswer/server/manage/administrative.py\<close>\<close>

text \<open>
  The handlers of this file orchestrate calls into collaborators that live elsewhere
  (database, admission policy, task queue, file store, LLM client, clock). Each
  collaborator is a parameter of the model: a function on the state \<open>'x\<close> of the outside
  world that returns either a raised exception or a value, together with the new outside
  state. The handlers thread a world that holds, besides that outside state, the dynamic
  config store and a log of the collaborator calls made so far, in the order they were
  made (what a test double would record).
\<close>

subsection \<open>Exceptions and Python values\<close>

text \<open>
  The exceptions the handlers raise, catch or let through. \<open>HTTPException\<close> carries the
  status code and the detail. \<open>RequestValidationError\<close> is the framework's rejection of a
  request body that violates a declared constraint. \<open>OtherValueError\<close> stands for any
  subclass of \<^verbatim>\<open>ValueError\<close> not listed (\<^verbatim>\<open>UnicodeDecodeError\<close>, for one), \<open>OtherError\<close> for
  any other exception of a collaborator, of a class that derives from none of the listed
  ones. \<open>NotModelled\<close> is not a Python exception: it marks an input of \<^verbatim>\<open>json.loads\<close> outside
  the fragment of JSON modelled below.
\<close>

datatype exn =
    HTTPException nat string
  | ConfigNotFoundError
  | ValueError string
  | TypeError string
  | KeyError string
  | JSONDecodeError string
  | OverflowError string
  | RequestValidationError string
  | NotModelled string
  | OtherValueError string
  | OtherError string

text \<open>
  \<^verbatim>\<open>isinstance(e, ValueError)\<close>, which decides what \<^verbatim>\<open>except ValueError\<close> catches:
  \<^verbatim>\<open>json.JSONDecodeError\<close> derives from \<^verbatim>\<open>ValueError\<close>; \<^verbatim>\<open>TypeError\<close>, \<^verbatim>\<open>KeyError\<close>,
  \<^verbatim>\<open>OverflowError\<close>, \<^verbatim>\<open>HTTPException\<close>, \<^verbatim>\<open>ConfigNotFoundError\<close> and the framework's
  \<^verbatim>\<open>RequestValidationError\<close> do not.
\<close>

fun is_ValueError :: "exn \<Rightarrow> bool" where
  "is_ValueError (ValueError msg) = True"
| "is_ValueError (JSONDecodeError msg) = True"
| "is_ValueError (OtherValueError msg) = True"
| "is_ValueError _ = False"

text \<open>
  Python truthiness of an \<^verbatim>\<open>str | None\<close> value, as tested by \<^verbatim>\<open>if error:\<close> and
  \<^verbatim>\<open>if deletion_attempt_disallowed_reason:\<close>: \<^verbatim>\<open>None\<close> and the empty string are falsy.
\<close>

fun truthy :: "string option \<Rightarrow> bool" where
  "truthy None = False"
| "truthy (Some s) = (s \<noteq> [])"

text \<open>\<^verbatim>\<open>str(n)\<close> for a Python int, as the f-string of the 404 message and \<^verbatim>\<open>json.dumps\<close> print it.\<close>

definition digit_char :: "nat \<Rightarrow> char" where
  "digit_char d = ''0123456789'' ! d"

function str_nat :: "nat \<Rightarrow> string" where
  "str_nat n = (if n < 10 then [digit_char n] else str_nat (n div 10) @ [digit_char (n mod 10)])"
  by pat_completeness auto
termination
  by (relation "measure (\<lambda>n. n)") auto

declare str_nat.simps [simp del]

definition str_int :: "int \<Rightarrow> string" where
  "str_int i = (if i < 0 then CHR ''-'' # str_nat (nat (- i)) else str_nat (nat i))"

subsection \<open>The world and the collaborator calls\<close>

datatype DocumentSource = FILE | OTHER_SOURCE string

datatype config_value =
    CfgList "string list"
  | CfgStr string
  | CfgInt int

record Connector =
  source :: DocumentSource
  connector_specific_config :: "string \<rightharpoonup> config_value"

record ConnectorCredentialPair =
  cc_connector_id :: int
  cc_credential_id :: int
  connector :: Connector

record ConnectorCredentialPairIdentifier =
  connector_id :: int
  credential_id :: int

record User =
  email :: string
  is_active :: bool

datatype 'f kv_value = KVFloat 'f | KVStr string

datatype collab_call =
    GetConnectorCredentialPair int int
  | CancelIndexingAttempts int bool
  | CheckDeletionAllowed ConnectorCredentialPair
  | ApplyAsync int int
  | GetDefaultFileStore
  | DeleteFile string
  | GetDefaultLlm nat
  | TestLlm
  | GetUserByEmail string
  | LoggerWarning string
  | DbAdd User
  | DbCommit

record ('f, 'x) world =
  kv_store :: "string \<rightharpoonup> 'f kv_value"
  calls :: "collab_call list"
  ext :: 'x

type_synonym ('x, 'a) collab = "'x \<Rightarrow> (exn + 'a) \<times> 'x"

type_synonym ('f, 'x, 'a) handler = "('f, 'x) world \<Rightarrow> (exn + 'a) \<times> ('f, 'x) world"

definition returnH :: "'a \<Rightarrow> ('f, 'x, 'a) handler" where
  "returnH a w = (Inr a, w)"

definition raiseH :: "exn \<Rightarrow> ('f, 'x, 'a) handler" where
  "raiseH e w = (Inl e, w)"

definition bindH :: "('f, 'x, 'a) handler \<Rightarrow> ('a \<Rightarrow> ('f, 'x, 'b) handler) \<Rightarrow> ('f, 'x, 'b) handler" where
  "bindH m f w = (case m w of (Inl e, w') \<Rightarrow> (Inl e, w') | (Inr a, w') \<Rightarrow> f a w')"

text \<open>A collaborator call: it is logged, then it runs on the outside state.\<close>

definition call :: "collab_call \<Rightarrow> ('x, 'a) collab \<Rightarrow> ('f, 'x, 'a) handler" where
  "call c m w =
     (case m (ext w) of (r, x') \<Rightarrow> (r, w\<lparr>calls := calls w @ [c], ext := x'\<rparr>))"

subsection \<open>\<^verbatim>\<open>create_deletion_attempt_for_connector_id\<close>\<close>

record 'x deletion_env =
  get_connector_credential_pair :: "int \<Rightarrow> int \<Rightarrow> ('x, ConnectorCredentialPair option) collab"
  cancel_indexing_attempts_for_connector :: "int \<Rightarrow> bool \<Rightarrow> ('x, unit) collab"
  check_deletion_attempt_is_allowed :: "ConnectorCredentialPair \<Rightarrow> ('x, string option) collab"
  apply_async :: "int \<Rightarrow> int \<Rightarrow> ('x, unit) collab"
  get_default_file_store :: "('x, unit) collab"
  delete_file :: "string \<Rightarrow> ('x, unit) collab"

definition not_found_detail :: "int \<Rightarrow> int \<Rightarrow> string" where
  "not_found_detail cid crid =
     ''Connector with ID '' @ [CHR 0x27] @ str_int cid @ [CHR 0x27] @ '' and credential ID ''
     @ [CHR 0x27] @ str_int crid @ [CHR 0x27] @ '' does not exist. Has it already been deleted?''"

text \<open>
  What \<^verbatim>\<open>for file_name in v\<close> iterates over: the elements of a list, the characters of a
  string; an int is not iterable.
\<close>

fun py_iter :: "config_value \<Rightarrow> exn + string list" where
  "py_iter (CfgList xs) = Inr xs"
| "py_iter (CfgStr s) = Inr (map (\<lambda>c. [c]) s)"
| "py_iter (CfgInt i) = Inl (TypeError ''int object is not iterable'')"

text \<open>The loop \<^verbatim>\<open>for file_name in ...: file_store.delete_file(file_name)\<close>.\<close>

fun delete_files :: "'x deletion_env \<Rightarrow> string list \<Rightarrow> ('f, 'x, unit) handler" where
  "delete_files env [] = returnH ()"
| "delete_files env (file_name # rest) =
     bindH (call (DeleteFile file_name) (delete_file env file_name))
       (\<lambda>_. delete_files env rest)"

definition create_deletion_attempt_for_connector_id ::
  "'x deletion_env \<Rightarrow> ConnectorCredentialPairIdentifier \<Rightarrow> ('f, 'x, unit) handler" where
  "create_deletion_attempt_for_connector_id env ident =
     (let cid = connector_id ident; crid = credential_id ident in
      bindH (call (GetConnectorCredentialPair cid crid) (get_connector_credential_pair env cid crid))
        (\<lambda>cc_pair_opt. case cc_pair_opt of
           None \<Rightarrow> raiseH (HTTPException 404 (not_found_detail cid crid))
         | Some cc_pair \<Rightarrow>
      bindH (call (CancelIndexingAttempts cid True) (cancel_indexing_attempts_for_connector env cid True))
        (\<lambda>_.
      bindH (call (CheckDeletionAllowed cc_pair) (check_deletion_attempt_is_allowed env cc_pair))
        (\<lambda>deletion_attempt_disallowed_reason.
      if truthy deletion_attempt_disallowed_reason
      then raiseH (HTTPException 400 (the deletion_attempt_disallowed_reason))
      else
      bindH (call (ApplyAsync cid crid) (apply_async env cid crid))
        (\<lambda>_.
      if source (connector cc_pair) = FILE
      then
        bindH (call GetDefaultFileStore (get_default_file_store env))
          (\<lambda>_. case connector_specific_config (connector cc_pair) ''file_locations'' of
                  None \<Rightarrow> raiseH (KeyError ''file_locations'')
                | Some v \<Rightarrow> (case py_iter v of
                               Inl e \<Rightarrow> raiseH e
                             | Inr file_names \<Rightarrow> delete_files env file_names))
      else returnH ())))))"


subsection \<open>The dynamic config store and the clock\<close>

text \<open>
  Modelled from the spec: the key-value config store behind \<^verbatim>\<open>get_dynamic_config_store()\<close>
  (\<^verbatim>\<open>danswer.dynamic_configs\<close>, not part of this file). Section 6 of the specification gives
  its interface as \<^verbatim>\<open>load(key) -> value | NotFound\<close> and \<^verbatim>\<open>store(key, value)\<close>; the miss is the
  exception \<^verbatim>\<open>ConfigNotFoundError\<close> that the handlers catch. A stored value is one of the two
  kinds this file stores: a float timestamp or a string.
\<close>

definition kv_load :: "string \<Rightarrow> ('f, 'x, 'f kv_value) handler" where
  "kv_load key w =
     (case kv_store w key of
        None \<Rightarrow> (Inl ConfigNotFoundError, w)
      | Some v \<Rightarrow> (Inr v, w))"

definition kv_put :: "string \<Rightarrow> 'f kv_value \<Rightarrow> ('f, 'x, unit) handler" where
  "kv_put key v w = (Inr (), w\<lparr>kv_store := (kv_store w)(key \<mapsto> v)\<rparr>)"

text \<open>\<^verbatim>\<open>try: body except ConfigNotFoundError: handler\<close> and \<^verbatim>\<open>try: body except ValueError: handler\<close>.\<close>

definition except_ConfigNotFoundError ::
  "('f, 'x, 'a) handler \<Rightarrow> ('f, 'x, 'a) handler \<Rightarrow> ('f, 'x, 'a) handler" where
  "except_ConfigNotFoundError body h w =
     (case body w of
        (Inl ConfigNotFoundError, w') \<Rightarrow> h w'
      | other \<Rightarrow> other)"

definition except_ValueError ::
  "('f, 'x, 'a) handler \<Rightarrow> ('f, 'x, 'a) handler \<Rightarrow> ('f, 'x, 'a) handler" where
  "except_ValueError body h w =
     (case body w of
        (Inl e, w') \<Rightarrow> if is_ValueError e then h w' else (Inl e, w')
      | other \<Rightarrow> other)"

text \<open>A pure computation that may raise, run inside a handler.\<close>

definition liftE :: "exn + 'a \<Rightarrow> ('f, 'x, 'a) handler" where
  "liftE r w = (r, w)"

subsection \<open>\<^verbatim>\<open>validate_existing_genai_api_key\<close>\<close>

text \<open>
  A \<^verbatim>\<open>datetime\<close> is its number of microseconds since the epoch and a \<^verbatim>\<open>timedelta\<close> a number
  of microseconds, as Python represents them. The float that \<^verbatim>\<open>datetime.timestamp()\<close>
  returns and \<^verbatim>\<open>datetime.fromtimestamp\<close> reads back is a value of the type \<open>'f\<close>; both
  conversions are parameters, so nothing is assumed about floating-point rounding.
  The clock \<^verbatim>\<open>datetime.now(tz=timezone.utc)\<close> reads the outside state and is not logged.
  \<^verbatim>\<open>GENERATIVE_MODEL_ACCESS_CHECK_FREQ\<close> (an int number of seconds, from \<^verbatim>\<open>app_configs\<close>) is a
  parameter.
\<close>

record ('f, 'l, 'x) llm_env =
  utcnow :: "'x \<Rightarrow> int \<times> 'x"
  timestamp :: "int \<Rightarrow> 'f"
  fromtimestamp :: "'f \<Rightarrow> exn + int"
  GENERATIVE_MODEL_ACCESS_CHECK_FREQ :: int
  get_default_llm :: "nat \<Rightarrow> ('x, 'l) collab"
  test_llm :: "'l \<Rightarrow> ('x, string option) collab"

definition GEN_AI_KEY_CHECK_TIME :: string where
  "GEN_AI_KEY_CHECK_TIME = ''genai_api_key_last_check_time''"

definition datetime_now :: "('f, 'l, 'x) llm_env \<Rightarrow> ('f, 'x, int) handler" where
  "datetime_now env w = (case utcnow env (ext w) of (t, x') \<Rightarrow> (Inr t, w\<lparr>ext := x'\<rparr>))"

definition datetime_fromtimestamp :: "('f, 'l, 'x) llm_env \<Rightarrow> 'f kv_value \<Rightarrow> exn + int" where
  "datetime_fromtimestamp env v =
     (case v of
        KVFloat t \<Rightarrow> fromtimestamp env t
      | KVStr s \<Rightarrow> Inl (TypeError ''a float is required''))"

text \<open>
  \<^verbatim>\<open>timedelta(seconds=n)\<close> for an int \<open>n\<close>: the seconds are normalised to days and seconds by
  \<^verbatim>\<open>divmod(n, 86400)\<close>, and a number of days of magnitude above 999999999 raises
  \<^verbatim>\<open>OverflowError\<close>.
\<close>

definition timedelta_seconds :: "int \<Rightarrow> exn + int" where
  "timedelta_seconds n =
     (if \<bar>n div 86400\<bar> > 999999999
      then Inl (OverflowError ''days must have magnitude <= 999999999'')
      else Inr (n * 1000000))"

text \<open>
  The first \<^verbatim>\<open>try\<close> block yields whether the handler returns early (\<open>True\<close>: the last
  check is recent); \<^verbatim>\<open>except ConfigNotFoundError: pass\<close> yields \<open>False\<close>.
\<close>

definition validate_existing_genai_api_key :: "('f, 'l, 'x) llm_env \<Rightarrow> ('f, 'x, unit) handler" where
  "validate_existing_genai_api_key env =
     bindH (datetime_now env)
       (\<lambda>curr_time.
     bindH (except_ConfigNotFoundError
              (bindH (kv_load GEN_AI_KEY_CHECK_TIME)
                 (\<lambda>v.
               bindH (liftE (datetime_fromtimestamp env v))
                 (\<lambda>last_check.
               bindH (liftE (timedelta_seconds (GENERATIVE_MODEL_ACCESS_CHECK_FREQ env)))
                 (\<lambda>check_freq_sec.
               returnH (curr_time - last_check < check_freq_sec)))))
              (returnH False))
       (\<lambda>checked_recently.
     if checked_recently then returnH ()
     else
     bindH (except_ValueError
              (call (GetDefaultLlm 10) (get_default_llm env 10))
              (raiseH (HTTPException 404 ''LLM not setup'')))
       (\<lambda>llm.
     bindH (call TestLlm (test_llm env llm))
       (\<lambda>error.
     if truthy error then raiseH (HTTPException 400 (the error))
     else
     bindH (datetime_now env)
       (\<lambda>curr_time.
     kv_put GEN_AI_KEY_CHECK_TIME (KVFloat (timestamp env curr_time)))))))"

subsection \<open>\<^verbatim>\<open>deactivate_user\<close>\<close>

record 'x user_env =
  get_user_by_email :: "string \<Rightarrow> ('x, User option) collab"
  logger_warning :: "string \<Rightarrow> ('x, unit) collab"
  db_add :: "User \<Rightarrow> ('x, unit) collab"
  db_commit :: "('x, unit) collab"

record UserByEmail =
  user_email :: string

definition deactivate_user ::
  "'x user_env \<Rightarrow> UserByEmail \<Rightarrow> User \<Rightarrow> ('f, 'x, unit) handler" where
  "deactivate_user env target current_user =
     (if email current_user = user_email target
      then raiseH (HTTPException 400 ''You cannot deactivate yourself'')
      else
      bindH (call (GetUserByEmail (user_email target)) (get_user_by_email env (user_email target)))
        (\<lambda>found. case found of
           None \<Rightarrow> raiseH (HTTPException 404 ''User not found'')
         | Some user_to_deactivate \<Rightarrow>
      bindH (if is_active user_to_deactivate = False
             then call (LoggerWarning (email user_to_deactivate @ '' is already deactivated''))
                    (logger_warning env (email user_to_deactivate @ '' is already deactivated''))
             else returnH ())
        (\<lambda>_.
      let deactivated = user_to_deactivate\<lparr>is_active := False\<rparr> in
      bindH (call (DbAdd deactivated) (db_add env deactivated))
        (\<lambda>_. call DbCommit (db_commit env)))))"

subsection \<open>JSON, as \<^verbatim>\<open>json.dumps\<close> writes it and \<^verbatim>\<open>json.loads\<close> reads it\<close>

text \<open>
  The standard library's \<^verbatim>\<open>json.dumps\<close> and \<^verbatim>\<open>json.loads\<close> with their default arguments, on
  the fragment the settings need: \<^verbatim>\<open>None\<close>, booleans, ints, strings, and dicts from strings to
  those. The reader follows \<^verbatim>\<open>json.decoder\<close> and \<^verbatim>\<open>json.scanner\<close>; where the input has an
  array, a nested object or a float (which \<^verbatim>\<open>json.loads\<close> accepts), the model answers
  \<open>NotModelled\<close>. A character is a code point below 256; the interpreter's limit on the
  number of digits of an int is not modelled.
\<close>

datatype json_atom = JNull | JBool bool | JInt int | JStr string

datatype json = Atom json_atom | Object "(string \<times> json_atom) list"

definition dquote :: char where "dquote = CHR 0x22"
definition backslash :: char where "backslash = CHR 0x5C"

text \<open>
  \<^verbatim>\<open>py_encode_basestring_ascii\<close>: the double quote, the backslash and every character outside
  \<^verbatim>\<open>' '..'~'\<close> are escaped.
\<close>

definition hex_digit :: "nat \<Rightarrow> char" where
  "hex_digit d = ''0123456789abcdef'' ! d"

definition escape_char :: "char \<Rightarrow> string" where
  "escape_char c =
     (if c = dquote then [backslash, dquote]
      else if c = backslash then [backslash, backslash]
      else if c = CHR 0x0A then [backslash, CHR ''n'']
      else if c = CHR 0x0D then [backslash, CHR ''r'']
      else if c = CHR 0x09 then [backslash, CHR ''t'']
      else if c = CHR 0x08 then [backslash, CHR ''b'']
      else if c = CHR 0x0C then [backslash, CHR ''f'']
      else if (of_char c :: nat) < 0x20 \<or> (0x7E :: nat) < of_char c
      then [backslash, CHR ''u'', CHR ''0'', CHR ''0'',
            hex_digit (of_char c div 16), hex_digit (of_char c mod 16)]
      else [c])"

definition py_encode_basestring_ascii :: "string \<Rightarrow> string" where
  "py_encode_basestring_ascii s = dquote # concat (map escape_char s) @ [dquote]"

fun dumps_atom :: "json_atom \<Rightarrow> string" where
  "dumps_atom JNull = ''null''"
| "dumps_atom (JBool b) = (if b then ''true'' else ''false'')"
| "dumps_atom (JInt i) = str_int i"
| "dumps_atom (JStr s) = py_encode_basestring_ascii s"

fun dumps_items :: "(string \<times> json_atom) list \<Rightarrow> string" where
  "dumps_items [] = []"
| "dumps_items [(k, v)] = py_encode_basestring_ascii k @ '': '' @ dumps_atom v"
| "dumps_items ((k, v) # item # items) =
     py_encode_basestring_ascii k @ '': '' @ dumps_atom v @ '', '' @ dumps_items (item # items)"

fun json_dumps :: "json \<Rightarrow> string" where
  "json_dumps (Atom a) = dumps_atom a"
| "json_dumps (Object d) = ''{'' @ dumps_items d @ ''}''"

text \<open>A Python dict keeps insertion order; assigning to a key it has replaces the value in place.\<close>

fun dict_setitem :: "(string \<times> 'v) list \<Rightarrow> string \<Rightarrow> 'v \<Rightarrow> (string \<times> 'v) list" where
  "dict_setitem [] k v = [(k, v)]"
| "dict_setitem ((k', v') # d) k v =
     (if k' = k then (k, v) # d else (k', v') # dict_setitem d k v)"

definition py_dict :: "(string \<times> 'v) list \<Rightarrow> (string \<times> 'v) list" where
  "py_dict pairs = foldl (\<lambda>d (k, v). dict_setitem d k v) [] pairs"

text \<open>The reader: \<^verbatim>\<open>WHITESPACE\<close>, digits, and \<^verbatim>\<open>py_scanstring\<close> in strict mode.\<close>

definition is_ws :: "char \<Rightarrow> bool" where
  "is_ws c \<longleftrightarrow> c = CHR 0x20 \<or> c = CHR 0x09 \<or> c = CHR 0x0A \<or> c = CHR 0x0D"

definition skip_ws :: "string \<Rightarrow> string" where
  "skip_ws s = dropWhile is_ws s"

definition is_digit :: "char \<Rightarrow> bool" where
  "is_digit c \<longleftrightarrow> (48 :: nat) \<le> of_char c \<and> (of_char c :: nat) \<le> 57"

definition digit_val :: "char \<Rightarrow> nat" where
  "digit_val c = of_char c - 48"

definition nat_of_digits :: "string \<Rightarrow> nat" where
  "nat_of_digits ds = foldl (\<lambda>n c. 10 * n + digit_val c) 0 ds"

definition hex_val :: "char \<Rightarrow> nat option" where
  "hex_val c =
     (let n = (of_char c :: nat) in
      if 48 \<le> n \<and> n \<le> 57 then Some (n - 48)
      else if 97 \<le> n \<and> n \<le> 102 then Some (n - 87)
      else if 65 \<le> n \<and> n \<le> 70 then Some (n - 55)
      else None)"

definition hex4 :: "char \<Rightarrow> char \<Rightarrow> char \<Rightarrow> char \<Rightarrow> nat option" where
  "hex4 a b c d =
     (case (hex_val a, hex_val b, hex_val c, hex_val d) of
        (Some x, Some y, Some z, Some u) \<Rightarrow> Some (((x * 16 + y) * 16 + z) * 16 + u)
      | _ \<Rightarrow> None)"

definition unescape :: "char \<Rightarrow> char option" where
  "unescape e =
     (if e = dquote then Some dquote
      else if e = backslash then Some backslash
      else if e = CHR ''/'' then Some CHR ''/''
      else if e = CHR ''b'' then Some (CHR 0x08)
      else if e = CHR ''f'' then Some (CHR 0x0C)
      else if e = CHR ''n'' then Some (CHR 0x0A)
      else if e = CHR ''r'' then Some (CHR 0x0D)
      else if e = CHR ''t'' then Some (CHR 0x09)
      else None)"

definition cons_result :: "char \<Rightarrow> exn + (string \<times> string) \<Rightarrow> exn + (string \<times> string)" where
  "cons_result c r = (case r of Inl e \<Rightarrow> Inl e | Inr (s, rest) \<Rightarrow> Inr (c # s, rest))"

fun scanstring :: "string \<Rightarrow> exn + (string \<times> string)" where
  "scanstring [] = Inl (JSONDecodeError ''Unterminated string starting at'')"
| "scanstring (c # cs) =
     (if c = dquote then Inr ([], cs)
      else if c = backslash then
        (case cs of
           [] \<Rightarrow> Inl (JSONDecodeError ''Unterminated string starting at'')
         | e # cs1 \<Rightarrow>
             if e = CHR ''u'' then
               (case cs1 of
                  h1 # h2 # h3 # h4 # cs2 \<Rightarrow>
                    (case hex4 h1 h2 h3 h4 of
                       None \<Rightarrow> Inl (JSONDecodeError ''Invalid uXXXX escape'')
                     | Some n \<Rightarrow>
                         if n < 256 then cons_result (char_of n) (scanstring cs2)
                         else Inl (NotModelled ''code point above 255''))
                | _ \<Rightarrow> Inl (JSONDecodeError ''Invalid uXXXX escape''))
             else
               (case unescape e of
                  None \<Rightarrow> Inl (JSONDecodeError ''Invalid escape'')
                | Some ch \<Rightarrow> cons_result ch (scanstring cs1)))
      else if (of_char c :: nat) < 0x20 then Inl (JSONDecodeError ''Invalid control character at'')
      else cons_result c (scanstring cs))"


text \<open>
  \<^verbatim>\<open>NUMBER_RE\<close>: an optional minus sign, then \<^verbatim>\<open>0\<close> or a non-zero digit followed by digits. A
  following \<^verbatim>\<open>.\<close>, \<^verbatim>\<open>e\<close> or \<^verbatim>\<open>E\<close> is where a float may begin.
\<close>

definition scan_number :: "string \<Rightarrow> exn + (json_atom \<times> string)" where
  "scan_number s =
     (let neg = (s \<noteq> [] \<and> hd s = CHR ''-'');
          s1 = (if neg then tl s else s)
      in case s1 of
           [] \<Rightarrow> Inl (JSONDecodeError ''Expecting value'')
         | d # ds \<Rightarrow>
             if \<not> is_digit d then Inl (JSONDecodeError ''Expecting value'')
             else
               let digits = (if d = CHR ''0'' then [d] else d # takeWhile is_digit ds);
                   rest = drop (length digits) s1
               in if rest \<noteq> [] \<and> (hd rest = CHR ''.'' \<or> hd rest = CHR ''e'' \<or> hd rest = CHR ''E'')
                  then Inl (NotModelled ''float'')
                  else Inr (JInt (if neg then - int (nat_of_digits digits)
                                  else int (nat_of_digits digits)), rest))"

text \<open>\<^verbatim>\<open>scan_once\<close> on a value that is not a container.\<close>

definition scan_atom :: "string \<Rightarrow> exn + (json_atom \<times> string)" where
  "scan_atom s =
     (case s of
        [] \<Rightarrow> Inl (JSONDecodeError ''Expecting value'')
      | c # cs \<Rightarrow>
          if c = dquote then
            (case scanstring cs of
               Inl e \<Rightarrow> Inl e
             | Inr (str, rest) \<Rightarrow> Inr (JStr str, rest))
          else if c = CHR 0x7B \<or> c = CHR 0x5B then Inl (NotModelled ''nested container'')
          else if take 4 s = ''null'' then Inr (JNull, drop 4 s)
          else if take 4 s = ''true'' then Inr (JBool True, drop 4 s)
          else if take 5 s = ''false'' then Inr (JBool False, drop 5 s)
          else if take 3 s = ''NaN'' \<or> take 8 s = ''Infinity'' \<or> take 9 s = ''-Infinity''
          then Inl (NotModelled ''float'')
          else scan_number s)"

text \<open>
  The loop of \<^verbatim>\<open>JSONObject\<close>: the input starts right after the opening quote of a key; the
  pairs read so far are accumulated in order.
\<close>

function parse_members ::
  "string \<Rightarrow> (string \<times> json_atom) list \<Rightarrow> exn + ((string \<times> json_atom) list \<times> string)" where
  "parse_members s pairs =
     (case scanstring s of
        Inl e \<Rightarrow> Inl e
      | Inr (key, s1) \<Rightarrow>
          (case skip_ws s1 of
             [] \<Rightarrow> Inl (JSONDecodeError ''Expecting : delimiter'')
           | c # s2 \<Rightarrow>
               if c \<noteq> CHR 0x3A then Inl (JSONDecodeError ''Expecting : delimiter'')
               else
                 (case scan_atom (skip_ws s2) of
                    Inl e \<Rightarrow> Inl e
                  | Inr (v, s3) \<Rightarrow>
                      (case skip_ws s3 of
                         [] \<Rightarrow> Inl (JSONDecodeError ''Expecting , delimiter'')
                       | d # s4 \<Rightarrow>
                           if d = CHR 0x7D then Inr (pairs @ [(key, v)], s4)
                           else if d \<noteq> CHR 0x2C then Inl (JSONDecodeError ''Expecting , delimiter'')
                           else
                             (case skip_ws s4 of
                                [] \<Rightarrow> Inl (JSONDecodeError ''Expecting property name enclosed in double quotes'')
                              | q # s5 \<Rightarrow>
                                  if q = dquote then parse_members s5 (pairs @ [(key, v)])
                                  else Inl (JSONDecodeError ''Expecting property name enclosed in double quotes''))))))"
  by pat_completeness auto

text \<open>The loop terminates: every scanner returns a rest that is no longer than its input.\<close>

lemma cons_result_length:
  "cons_result c r = Inr (str, rest) \<Longrightarrow> \<exists>str'. r = Inr (str', rest)"
  by (auto simp: cons_result_def split: sum.splits)

lemma scanstring_length:
  "scanstring s = Inr (str, rest) \<Longrightarrow> length rest < length s"
proof (induction s arbitrary: str rule: scanstring.induct)
  case 1
  then show ?case by simp
next
  case (2 c cs)
  show ?case
  proof (cases "c = dquote")
    case True
    with "2.prems" show ?thesis by simp
  next
    case nq: False
    show ?thesis
    proof (cases "c = backslash")
      case False
      with nq "2.prems" obtain str' where "scanstring cs = Inr (str', rest)"
        by (auto split: if_splits dest: cons_result_length)
      from "2.IH"(3)[OF nq False _ this] "2.prems" nq False show ?thesis
        by (auto split: if_splits)
    next
      case bs: True
      with nq "2.prems" obtain e cs1 where cs: "cs = e # cs1"
        by (cases cs) auto
      show ?thesis
      proof (cases "e = CHR ''u''")
        case False
        with nq bs cs "2.prems" obtain ch str' where
          u: "unescape e = Some ch" and r: "scanstring cs1 = Inr (str', rest)"
          by (auto split: option.splits dest: cons_result_length)
        from "2.IH"(2)[OF nq bs cs False u r] cs show ?thesis by simp
      next
        case True
        with nq bs cs "2.prems" obtain h1 h2 h3 h4 cs2 n str' where
          c1: "cs1 = h1 # h2 # h3 # h4 # cs2" and h: "hex4 h1 h2 h3 h4 = Some n"
          and n: "n < 256" and r: "scanstring cs2 = Inr (str', rest)"
          by (auto split: list.splits option.splits if_splits dest: cons_result_length)
        from "2.IH"(1)[OF nq bs cs True c1 refl refl refl h n r] cs c1 show ?thesis by simp
      qed
    qed
  qed
qed

lemma skip_ws_length: "length (skip_ws s) \<le> length s"
  by (simp add: skip_ws_def length_dropWhile_le)

lemma scan_number_length:
  "scan_number s = Inr (v, rest) \<Longrightarrow> length rest \<le> length s"
  by (cases s) (auto simp: scan_number_def Let_def split: list.splits if_splits)

lemma scan_atom_length:
  "scan_atom s = Inr (v, rest) \<Longrightarrow> length rest \<le> length s"
  by (auto simp: scan_atom_def split: list.splits if_splits sum.splits
           dest: scanstring_length scan_number_length)

termination parse_members
proof (relation "measure (\<lambda>(s, pairs). length s)", goal_cases)
  case 1
  show ?case by simp
next
  case (2 s pairs x2 key s1 c s2 x2a v s3 d s4 q s5)
  have "length s5 < length (skip_ws s4)" using 2 by simp
  also have "\<dots> \<le> length s4" by (rule skip_ws_length)
  also have "\<dots> < length (skip_ws s3)" using 2 by simp
  also have "\<dots> \<le> length s3" by (rule skip_ws_length)
  also have "\<dots> \<le> length (skip_ws s2)" using 2 scan_atom_length by metis
  also have "\<dots> \<le> length s2" by (rule skip_ws_length)
  also have "\<dots> < length (skip_ws s1)" using 2 by simp
  also have "\<dots> \<le> length s1" by (rule skip_ws_length)
  also have "\<dots> < length s" using 2 scanstring_length by metis
  finally show ?case by simp
qed

declare parse_members.simps [simp del]

text \<open>
  \<^verbatim>\<open>JSONObject\<close> after the opening brace, \<^verbatim>\<open>scan_once\<close>, and \<^verbatim>\<open>JSONDecoder.decode\<close>, which
  skips the white space around the value and rejects anything after it.
\<close>

definition scan_object :: "string \<Rightarrow> exn + (json \<times> string)" where
  "scan_object s =
     (case skip_ws s of
        [] \<Rightarrow> Inl (JSONDecodeError ''Expecting property name enclosed in double quotes'')
      | c # s1 \<Rightarrow>
          if c = CHR 0x7D then Inr (Object [], s1)
          else if c = dquote then
            (case parse_members s1 [] of
               Inl e \<Rightarrow> Inl e
             | Inr (pairs, rest) \<Rightarrow> Inr (Object (py_dict pairs), rest))
          else Inl (JSONDecodeError ''Expecting property name enclosed in double quotes''))"

definition scan_value :: "string \<Rightarrow> exn + (json \<times> string)" where
  "scan_value s =
     (case s of
        [] \<Rightarrow> Inl (JSONDecodeError ''Expecting value'')
      | c # cs \<Rightarrow>
          if c = CHR 0x7B then scan_object cs
          else (case scan_atom s of
                  Inl e \<Rightarrow> Inl e
                | Inr (a, rest) \<Rightarrow> Inr (Atom a, rest)))"

definition json_loads :: "string \<Rightarrow> exn + json" where
  "json_loads s =
     (case scan_value (skip_ws s) of
        Inl e \<Rightarrow> Inl e
      | Inr (v, rest) \<Rightarrow>
          if skip_ws rest = [] then Inr v else Inl (JSONDecodeError ''Extra data''))"

text \<open>
  Strings that \<^verbatim>\<open>json.dumps\<close> writes unescaped: printable ASCII without the double quote and
  the backslash.
\<close>

definition plain_char :: "char \<Rightarrow> bool" where
  "plain_char c \<longleftrightarrow> (0x20 :: nat) \<le> of_char c \<and> (of_char c :: nat) \<le> 0x7E \<and> c \<noteq> dquote \<and> c \<noteq> backslash"

definition plain :: "string \<Rightarrow> bool" where
  "plain s = list_all plain_char s"

fun plain_atom :: "json_atom \<Rightarrow> bool" where
  "plain_atom (JStr s) = plain s"
| "plain_atom _ = True"

definition plain_items :: "(string \<times> json_atom) list \<Rightarrow> bool" where
  "plain_items d = list_all (\<lambda>(k, v). plain k \<and> plain_atom v) d"

subsection \<open>\<^verbatim>\<open>get_token_budget_settings\<close> and \<^verbatim>\<open>update_token_budget_settings\<close>\<close>

text \<open>
  The constants of \<^verbatim>\<open>danswer.configs\<close> that the two handlers use are parameters.
  \<^verbatim>\<open>Body(..., ge=0)\<close> and \<^verbatim>\<open>Body(..., ge=1)\<close> are checked by the framework before the body of
  \<^verbatim>\<open>update_token_budget_settings\<close> runs; a request that fails them never reaches it.
\<close>

record budget_consts =
  TOKEN_BUDGET_GLOBALLY_ENABLED :: bool
  TOKEN_BUDGET_SETTINGS :: string
  ENABLE_TOKEN_BUDGET :: string
  TOKEN_BUDGET :: string
  TOKEN_BUDGET_TIME_PERIOD :: string

definition loads_value :: "'f kv_value \<Rightarrow> exn + json" where
  "loads_value v =
     (case v of
        KVStr s \<Rightarrow> json_loads s
      | KVFloat t \<Rightarrow> Inl (TypeError ''the JSON object must be str, bytes or bytearray, not float''))"

definition get_token_budget_settings :: "budget_consts \<Rightarrow> ('f, 'x, json) handler" where
  "get_token_budget_settings c =
     (if \<not> TOKEN_BUDGET_GLOBALLY_ENABLED c
      then raiseH (HTTPException 400 ''Token budget is not enabled in the application.'')
      else
        except_ConfigNotFoundError
          (bindH (kv_load (TOKEN_BUDGET_SETTINGS c))
             (\<lambda>settings_json. liftE (loads_value settings_json)))
          (raiseH (HTTPException 404 ''Token budget settings not found.'')))"

definition update_token_budget_settings ::
  "budget_consts \<Rightarrow> bool \<Rightarrow> int \<Rightarrow> int \<Rightarrow> ('f, 'x, (string \<times> string) list) handler" where
  "update_token_budget_settings c enable_token_budget token_budget token_budget_time_period =
     (if token_budget < 0 \<or> token_budget_time_period < 1
      then raiseH (RequestValidationError ''greater than or equal'')
      else
        let settings_json =
              json_dumps (Object (py_dict
                [(ENABLE_TOKEN_BUDGET c, JBool enable_token_budget),
                 (TOKEN_BUDGET c, JInt token_budget),
                 (TOKEN_BUDGET_TIME_PERIOD c, JInt token_budget_time_period)]))
        in bindH (kv_put (TOKEN_BUDGET_SETTINGS c) (KVStr settings_json))
             (\<lambda>_. returnH [(''message'', ''Token budget settings updated successfully.'')]))"

subsection \<open>Test doubles\<close>

text \<open>
  Concrete collaborators on which the theorems below are instantiated: a repository that
  holds the single pair (1, 2) of a file connector with two file locations, a policy that
  answers with a fixed verdict, and a file store (the outside state: the list of files
  present) whose \<^verbatim>\<open>delete_file\<close> fails on a file that is not there.
\<close>

definition stub_pair :: ConnectorCredentialPair where
  "stub_pair =
     \<lparr>cc_connector_id = 1, cc_credential_id = 2,
      connector = \<lparr>source = FILE,
                   connector_specific_config = [''file_locations'' \<mapsto> CfgList [''a.pdf'', ''b.pdf'']]\<rparr>\<rparr>"

definition stub_deletion_env :: "string option \<Rightarrow> (string list) deletion_env" where
  "stub_deletion_env verdict =
     \<lparr>get_connector_credential_pair =
        (\<lambda>cid crid x. (Inr (if cid = 1 \<and> crid = 2 then Some stub_pair else None), x)),
      cancel_indexing_attempts_for_connector = (\<lambda>cid secondary x. (Inr (), x)),
      check_deletion_attempt_is_allowed = (\<lambda>p x. (Inr verdict, x)),
      apply_async = (\<lambda>cid crid x. (Inr (), x)),
      get_default_file_store = (\<lambda>x. (Inr (), x)),
      delete_file =
        (\<lambda>f x. if f \<in> set x then (Inr (), removeAll f x)
                else (Inl (OtherError ''file not found''), x))\<rparr>"

definition stub_world :: "'x \<Rightarrow> (int, 'x) world" where
  "stub_world x = \<lparr>kv_store = Map.empty, calls = [], ext = x\<rparr>"

text \<open>
  An LLM client that is configured or not and whose test answers with a fixed verdict; the
  outside state is the clock, in microseconds, and every reading advances it by one second.
  Float timestamps are the microsecond counts themselves. The cooldown is one day.
\<close>

definition stub_llm_env :: "bool \<Rightarrow> string option \<Rightarrow> (int, unit, int) llm_env" where
  "stub_llm_env configured verdict =
     \<lparr>utcnow = (\<lambda>x. (x, x + 1000000)),
      timestamp = (\<lambda>t. t),
      fromtimestamp = (\<lambda>f. Inr f),
      GENERATIVE_MODEL_ACCESS_CHECK_FREQ = 86400,
      get_default_llm = (\<lambda>timeout x. (if configured then Inr () else Inl (ValueError ''no key''), x)),
      test_llm = (\<lambda>llm x. (Inr verdict, x))\<rparr>"

text \<open>A user table in which every email belongs to an active user.\<close>

definition stub_user_env :: "unit user_env" where
  "stub_user_env =
     \<lparr>get_user_by_email = (\<lambda>e x. (Inr (Some \<lparr>email = e, is_active = True\<rparr>), x)),
      logger_warning = (\<lambda>msg x. (Inr (), x)),
      db_add = (\<lambda>u x. (Inr (), x)),
      db_commit = (\<lambda>x. (Inr (), x))\<rparr>"

text \<open>
  A user table (the outside state) whose lookup ignores the case of letters, as a
  case-insensitive collation does; \<^verbatim>\<open>db_session.add\<close> replaces the row of that email.
\<close>

definition lower :: "char \<Rightarrow> char" where
  "lower c =
     (case map_of (zip ''ABCDEFGHIJKLMNOPQRSTUVWXYZ'' ''abcdefghijklmnopqrstuvwxyz'') c of
        Some l \<Rightarrow> l
      | None \<Rightarrow> c)"

definition stub_ci_user_env :: "(User list) user_env" where
  "stub_ci_user_env =
     \<lparr>get_user_by_email =
        (\<lambda>e users. (Inr (find (\<lambda>u. map lower (email u) = map lower e) users), users)),
      logger_warning = (\<lambda>msg users. (Inr (), users)),
      db_add = (\<lambda>u users. (Inr (), map (\<lambda>v. if email v = email u then u else v) users)),
      db_commit = (\<lambda>users. (Inr (), users))\<rparr>"

text \<open>The token budget switched on, with the key names of the settings.\<close>

definition stub_budget_consts :: budget_consts where
  "stub_budget_consts =
     \<lparr>TOKEN_BUDGET_GLOBALLY_ENABLED = True,
      TOKEN_BUDGET_SETTINGS = ''token_budget_settings'',
      ENABLE_TOKEN_BUDGET = ''enable_token_budget'',
      TOKEN_BUDGET = ''token_budget'',
      TOKEN_BUDGET_TIME_PERIOD = ''token_budget_time_period''\<rparr>"

subsection \<open>A handler only appends to the call log\<close>

text \<open>The invariant behind the ordering properties: running a handler extends the log.\<close>

definition appends :: "('f, 'x, 'a) handler \<Rightarrow> bool" where
  "appends m \<longleftrightarrow> (\<forall>w r w'. m w = (r, w') \<longrightarrow> (\<exists>rest. calls w' = calls w @ rest))"

section \<open>Properties\<close>

subsection \<open>Deletion: calls and the call log\<close>

lemma call_eq:
  "m (ext w) = (r, x) \<Longrightarrow> call c m w = (r, w\<lparr>calls := calls w @ [c], ext := x\<rparr>)"
  by (simp add: call_def)

lemma call_calls:
  "call c m w = (r, w') \<Longrightarrow> calls w' = calls w @ [c] \<and> kv_store w' = kv_store w"
  by (auto simp: call_def split: prod.splits)

lemma appendsD: "appends m \<Longrightarrow> m w = (r, w') \<Longrightarrow> \<exists>rest. calls w' = calls w @ rest"
  unfolding appends_def by blast

lemma appends_call: "appends (call c m)"
  unfolding appends_def using call_calls by blast

lemma appends_returnH: "appends (returnH a)"
  by (simp add: appends_def returnH_def)

lemma appends_raiseH: "appends (raiseH e)"
  by (simp add: appends_def raiseH_def)

lemma appends_bindH:
  assumes "appends m" and "\<And>a. appends (f a)"
  shows "appends (bindH m f)"
  unfolding appends_def
proof (intro allI impI)
  fix w r w'
  assume run: "bindH m f w = (r, w')"
  obtain r1 w1 where m: "m w = (r1, w1)" by (cases "m w")
  from appendsD[OF assms(1) m] obtain rest1 where r1: "calls w1 = calls w @ rest1" by blast
  show "\<exists>rest. calls w' = calls w @ rest"
  proof (cases r1)
    case (Inl e)
    with run m have "w' = w1" by (simp add: bindH_def)
    with r1 show ?thesis by blast
  next
    case (Inr a)
    with run m have "f a w1 = (r, w')" by (simp add: bindH_def)
    from appendsD[OF assms(2) this] obtain rest2 where "calls w' = calls w1 @ rest2" by blast
    with r1 show ?thesis by simp
  qed
qed

lemma appends_delete_files: "appends (delete_files env fs)"
  by (induction fs) (simp_all add: appends_returnH appends_bindH appends_call)

lemma delete_files_ok:
  "delete_files env fs w = (Inr u, w') \<Longrightarrow>
     calls w' = calls w @ map DeleteFile fs \<and> kv_store w' = kv_store w"
proof (induction fs arbitrary: w)
  case Nil
  then show ?case by (simp add: returnH_def)
next
  case (Cons f fs)
  obtain r w1 where c: "call (DeleteFile f) (delete_file env f) w = (r, w1)"
    by (cases "call (DeleteFile f) (delete_file env f) w")
  with Cons.prems obtain u1 where r: "r = Inr u1"
    by (cases r) (auto simp: bindH_def)
  from Cons.prems c r have "delete_files env fs w1 = (Inr u, w')"
    by (simp add: bindH_def)
  from Cons.IH[OF this] call_calls[OF c] show ?case by simp
qed

lemma delete_files_append:
  "delete_files env pre w = (Inr (), w1) \<Longrightarrow>
   delete_files env (pre @ post) w = delete_files env post w1"
proof (induction pre arbitrary: w)
  case Nil
  then show ?case by (simp add: returnH_def)
next
  case (Cons f pre)
  obtain r w2 where c: "call (DeleteFile f) (delete_file env f) w = (r, w2)"
    by (cases "call (DeleteFile f) (delete_file env f) w")
  with Cons.prems obtain u1 where r: "r = Inr u1"
    by (cases r) (auto simp: bindH_def)
  from Cons.prems c r have "delete_files env pre w2 = (Inr (), w1)"
    by (simp add: bindH_def)
  from Cons.IH[OF this] c r show ?case by (simp add: bindH_def)
qed


text \<open>A logged call followed by code that only appends: the call is in the log.\<close>

lemma bindH_call_shape:
  assumes run: "bindH (call c m) f w = (r, w')"
    and tail: "\<And>a. appends (f a)"
  shows "\<exists>rest. calls w' = calls w @ c # rest"
proof -
  obtain r1 w1 where c: "call c m w = (r1, w1)" by (cases "call c m w")
  from call_calls[OF c] have w1: "calls w1 = calls w @ [c]" by simp
  show ?thesis
  proof (cases r1)
    case (Inl e)
    with run c have "w' = w1" by (simp add: bindH_def)
    with w1 show ?thesis by simp
  next
    case (Inr a)
    with run c have "f a w1 = (r, w')" by (simp add: bindH_def)
    from appendsD[OF tail this] obtain rest where "calls w' = calls w1 @ rest" by blast
    with w1 show ?thesis by simp
  qed
qed

text \<open>The part of the handler that runs once the request has been admitted.\<close>

lemma admitted_tail_appends:
  "appends
     (bindH (call (ApplyAsync cid crid) (apply_async env cid crid))
        (\<lambda>_. if source (connector cc_pair) = FILE
              then bindH (call GetDefaultFileStore (get_default_file_store env))
                     (\<lambda>_. case connector_specific_config (connector cc_pair) ''file_locations'' of
                             None \<Rightarrow> raiseH (KeyError ''file_locations'')
                           | Some v \<Rightarrow> (case py_iter v of
                                          Inl e \<Rightarrow> raiseH e
                                        | Inr file_names \<Rightarrow> delete_files env file_names))
              else returnH ()))"
  by (intro appends_bindH appends_call)
     (auto intro!: appends_bindH appends_call appends_raiseH appends_returnH appends_delete_files
           split: option.splits sum.splits)

text \<open>
  Claim C1. For a deletion request whose pair exists (the lookup returns it and leaves the
  outside state \<open>x1\<close>), the handler applies
  \<^verbatim>\<open>cancel_indexing_attempts_for_connector(connector_id, include_secondary_index=True)\<close> to
  \<open>x1\<close>, as its second call, whatever happens later: if the cancellation raises, the handler
  raises the same exception, in the state the cancellation left, and the admission policy
  is never consulted. If it returns, \<^verbatim>\<open>check_deletion_attempt_is_allowed\<close> is applied next, to
  the state \<open>x2\<close> that the cancellation left: its exception, or its denial, is the handler's
  result, in the state \<open>x3\<close> the policy left, and after an allowance the job submission is
  applied to \<open>x3\<close>. Wherever the policy occurs in the call log, the cancellation call is
  before it.
\<close>

theorem C1_cancellation_precedes_admission:
  assumes lookup: "get_connector_credential_pair env cid crid (ext w) = (Inr (Some cc_pair), x1)"
    and cancel: "cancel_indexing_attempts_for_connector env cid True x1 = (c, x2)"
    and policy: "check_deletion_attempt_is_allowed env cc_pair x2 = (p, x3)"
    and run: "create_deletion_attempt_for_connector_id env
                \<lparr>connector_id = cid, credential_id = crid\<rparr> w = (r, w')"
  shows "(\<exists>rest. calls w' = calls w @ GetConnectorCredentialPair cid crid
                      # CancelIndexingAttempts cid True # rest)
       \<and> (\<forall>pre q post. calls w' = calls w @ pre @ CheckDeletionAllowed q # post
             \<longrightarrow> CancelIndexingAttempts cid True \<in> set pre)
       \<and> (\<forall>e. c = Inl e \<longrightarrow>
             r = Inl e
           \<and> w' = w\<lparr>calls := calls w @ [GetConnectorCredentialPair cid crid,
                                          CancelIndexingAttempts cid True],
                     ext := x2\<rparr>)
       \<and> (c = Inr () \<longrightarrow>
             (\<exists>rest. calls w' = calls w @ GetConnectorCredentialPair cid crid
                         # CancelIndexingAttempts cid True
                         # CheckDeletionAllowed cc_pair # rest)
           \<and> (\<forall>e. p = Inl e \<longrightarrow>
                 r = Inl e
               \<and> w' = w\<lparr>calls := calls w @ [GetConnectorCredentialPair cid crid,
                                              CancelIndexingAttempts cid True,
                                              CheckDeletionAllowed cc_pair],
                         ext := x3\<rparr>)
           \<and> (\<forall>reason. p = Inr reason \<longrightarrow> truthy reason \<longrightarrow>
                 r = Inl (HTTPException 400 (the reason))
               \<and> w' = w\<lparr>calls := calls w @ [GetConnectorCredentialPair cid crid,
                                              CancelIndexingAttempts cid True,
                                              CheckDeletionAllowed cc_pair],
                         ext := x3\<rparr>)
           \<and> (\<forall>reason a x4. p = Inr reason \<longrightarrow> \<not> truthy reason \<longrightarrow>
                 apply_async env cid crid x3 = (a, x4) \<longrightarrow>
                 (\<exists>rest. calls w' = calls w @ [GetConnectorCredentialPair cid crid,
                                                CancelIndexingAttempts cid True,
                                                CheckDeletionAllowed cc_pair,
                                                ApplyAsync cid crid] @ rest)
               \<and> (\<forall>e. a = Inl e \<longrightarrow>
                     r = Inl e
                   \<and> w' = w\<lparr>calls := calls w @ [GetConnectorCredentialPair cid crid,
                                                  CancelIndexingAttempts cid True,
                                                  CheckDeletionAllowed cc_pair,
                                                  ApplyAsync cid crid],
                             ext := x4\<rparr>)))"
proof -
  let ?G = "GetConnectorCredentialPair cid crid"
  let ?C = "CancelIndexingAttempts cid True"
  let ?P = "CheckDeletionAllowed cc_pair"
  let ?A = "bindH (call (ApplyAsync cid crid) (apply_async env cid crid))
        (\<lambda>_. if source (connector cc_pair) = FILE
              then bindH (call GetDefaultFileStore (get_default_file_store env))
                     (\<lambda>_. case connector_specific_config (connector cc_pair) ''file_locations'' of
                             None \<Rightarrow> raiseH (KeyError ''file_locations'')
                           | Some v \<Rightarrow> (case py_iter v of
                                          Inl e \<Rightarrow> raiseH e
                                        | Inr file_names \<Rightarrow> delete_files env file_names))
              else returnH ())"
  let ?w2 = "w\<lparr>calls := calls w @ [?G, ?C], ext := x2\<rparr>"
  let ?w3 = "w\<lparr>calls := calls w @ [?G, ?C, ?P], ext := x3\<rparr>"
  have failed: "r = Inl e \<and> w' = ?w2" if "c = Inl e" for e
    using run lookup cancel that
    by (simp add: create_deletion_attempt_for_connector_id_def Let_def bindH_def call_def)
  have raised: "r = Inl e \<and> w' = ?w3" if "c = Inr ()" "p = Inl e" for e
    using run lookup cancel policy that
    by (simp add: create_deletion_attempt_for_connector_id_def Let_def bindH_def call_def)
  have denied: "r = Inl (HTTPException 400 (the reason)) \<and> w' = ?w3"
    if "c = Inr ()" "p = Inr reason" "truthy reason" for reason
    using run lookup cancel policy that
    by (simp add: create_deletion_attempt_for_connector_id_def Let_def bindH_def call_def raiseH_def)
  have admitted: "?A ?w3 = (r, w')" if "c = Inr ()" "p = Inr reason" "\<not> truthy reason" for reason
    using run lookup cancel policy that
    by (simp add: create_deletion_attempt_for_connector_id_def Let_def bindH_def call_def)
  have submit_shape: "\<exists>rest. calls w' = calls w @ [?G, ?C, ?P, ApplyAsync cid crid] @ rest"
    if "c = Inr ()" "p = Inr reason" "\<not> truthy reason" for reason
  proof -
    have "\<exists>rest. calls w' = calls ?w3 @ ApplyAsync cid crid # rest"
      by (rule bindH_call_shape[OF admitted[OF that]])
         (auto intro!: appends_bindH appends_call appends_raiseH appends_returnH
               appends_delete_files split: option.splits sum.splits)
    then show ?thesis by simp
  qed
  have submit_failed: "r = Inl e \<and> w' = w\<lparr>calls := calls w @ [?G, ?C, ?P, ApplyAsync cid crid], ext := x4\<rparr>"
    if "c = Inr ()" "p = Inr reason" "\<not> truthy reason" "apply_async env cid crid x3 = (a, x4)"
      "a = Inl e" for reason a x4 e
    using admitted[OF that(1-3)] that(4,5) by (simp add: bindH_def call_def)
  have policy_shape: "\<exists>rest. calls w' = calls w @ ?G # ?C # ?P # rest" if ok: "c = Inr ()"
  proof (cases p)
    case (Inl e)
    with raised[OF ok] show ?thesis by simp
  next
    case (Inr reason)
    show ?thesis
    proof (cases "truthy reason")
      case True
      with denied[OF ok Inr] show ?thesis by simp
    next
      case False
      from submit_shape[OF ok Inr False] show ?thesis by auto
    qed
  qed
  have shape: "\<exists>rest. calls w' = calls w @ ?G # ?C # rest"
  proof (cases c)
    case (Inl e)
    with failed show ?thesis by simp
  next
    case (Inr u)
    then have "c = Inr ()" by simp
    from policy_shape[OF this] show ?thesis by auto
  qed
  have order: "?C \<in> set pre"
    if "calls w' = calls w @ pre @ CheckDeletionAllowed q # post" for pre q post
  proof -
    from shape that obtain rest where
      eq: "?G # ?C # rest = pre @ CheckDeletionAllowed q # post" by auto
    show ?thesis
    proof (cases pre)
      case Nil
      with eq show ?thesis by simp
    next
      case (Cons a pre1)
      with eq show ?thesis by (cases pre1) auto
    qed
  qed
  show ?thesis
  proof (intro conjI)
    show "\<exists>rest. calls w' = calls w @ ?G # ?C # rest" by (rule shape)
  next
    show "\<forall>pre q post. calls w' = calls w @ pre @ CheckDeletionAllowed q # post
            \<longrightarrow> ?C \<in> set pre"
      using order by blast
  next
    show "\<forall>e. c = Inl e \<longrightarrow> r = Inl e \<and> w' = ?w2"
      using failed by blast
  next
    show "c = Inr () \<longrightarrow>
            (\<exists>rest. calls w' = calls w @ ?G # ?C # ?P # rest)
          \<and> (\<forall>e. p = Inl e \<longrightarrow> r = Inl e \<and> w' = ?w3)
          \<and> (\<forall>reason. p = Inr reason \<longrightarrow> truthy reason \<longrightarrow>
                r = Inl (HTTPException 400 (the reason)) \<and> w' = ?w3)
          \<and> (\<forall>reason a x4. p = Inr reason \<longrightarrow> \<not> truthy reason \<longrightarrow>
                apply_async env cid crid x3 = (a, x4) \<longrightarrow>
                (\<exists>rest. calls w' = calls w @ [?G, ?C, ?P, ApplyAsync cid crid] @ rest)
              \<and> (\<forall>e. a = Inl e \<longrightarrow>
                    r = Inl e
                  \<and> w' = w\<lparr>calls := calls w @ [?G, ?C, ?P, ApplyAsync cid crid], ext := x4\<rparr>))"
    proof (intro impI conjI)
      assume ok: "c = Inr ()"
      show "\<exists>rest. calls w' = calls w @ ?G # ?C # ?P # rest"
        by (rule policy_shape[OF ok])
      show "\<forall>e. p = Inl e \<longrightarrow> r = Inl e \<and> w' = ?w3"
        using raised[OF ok] by blast
      show "\<forall>reason. p = Inr reason \<longrightarrow> truthy reason \<longrightarrow>
                r = Inl (HTTPException 400 (the reason)) \<and> w' = ?w3"
        using denied[OF ok] by blast
      show "\<forall>reason a x4. p = Inr reason \<longrightarrow> \<not> truthy reason \<longrightarrow>
                apply_async env cid crid x3 = (a, x4) \<longrightarrow>
                (\<exists>rest. calls w' = calls w @ [?G, ?C, ?P, ApplyAsync cid crid] @ rest)
              \<and> (\<forall>e. a = Inl e \<longrightarrow>
                    r = Inl e
                  \<and> w' = w\<lparr>calls := calls w @ [?G, ?C, ?P, ApplyAsync cid crid], ext := x4\<rparr>)"
      proof (intro allI impI conjI)
        fix reason a x4
        assume h: "p = Inr reason" "\<not> truthy reason" "apply_async env cid crid x3 = (a, x4)"
        show "\<exists>rest. calls w' = calls w @ [?G, ?C, ?P, ApplyAsync cid crid] @ rest"
          by (rule submit_shape[OF ok h(1,2)])
        fix e
        assume "a = Inl e"
        from submit_failed[OF ok h this]
        show "r = Inl e"
          and "w' = w\<lparr>calls := calls w @ [?G, ?C, ?P, ApplyAsync cid crid], ext := x4\<rparr>"
          by simp_all
      qed
    qed
  qed
qed

theorem C1_witness:
  "create_deletion_attempt_for_connector_id (stub_deletion_env (Some ''connector must be paused''))
     \<lparr>connector_id = 1, credential_id = 2\<rparr> (stub_world [''a.pdf'', ''b.pdf'']) =
   (Inl (HTTPException 400 ''connector must be paused''),
    \<lparr>kv_store = Map.empty,
      calls = [GetConnectorCredentialPair 1 2, CancelIndexingAttempts 1 True,
               CheckDeletionAllowed stub_pair],
      ext = [''a.pdf'', ''b.pdf'']\<rparr>)"
proof -
  let ?env = "stub_deletion_env (Some ''connector must be paused'')"
  let ?w = "stub_world [''a.pdf'', ''b.pdf''] :: (int, string list) world"
  let ?run = "create_deletion_attempt_for_connector_id ?env
                \<lparr>connector_id = 1, credential_id = 2\<rparr> ?w"
  have lookup: "get_connector_credential_pair ?env 1 2 (ext ?w)
                  = (Inr (Some stub_pair), [''a.pdf'', ''b.pdf''])"
    and cancel: "cancel_indexing_attempts_for_connector ?env 1 True [''a.pdf'', ''b.pdf'']
                  = (Inr (), [''a.pdf'', ''b.pdf''])"
    and policy: "check_deletion_attempt_is_allowed ?env stub_pair [''a.pdf'', ''b.pdf'']
                  = (Inr (Some ''connector must be paused''), [''a.pdf'', ''b.pdf''])"
    by (simp_all add: stub_deletion_env_def stub_world_def)
  have run: "?run = (fst ?run, snd ?run)" by simp
  from C1_cancellation_precedes_admission[OF lookup cancel policy run]
  have "fst ?run = Inl (HTTPException 400 ''connector must be paused'')"
    and "snd ?run = ?w\<lparr>calls := calls ?w @ [GetConnectorCredentialPair 1 2,
                           CancelIndexingAttempts 1 True, CheckDeletionAllowed stub_pair],
                         ext := [''a.pdf'', ''b.pdf'']\<rparr>"
    by simp_all
  then show ?thesis by (simp add: prod_eq_iff stub_world_def)
qed


text \<open>
  Claim C2. For a deletion request whose pair is absent (the lookup returns \<^verbatim>\<open>None\<close>), the
  handler raises \<^verbatim>\<open>HTTPException(404)\<close> with the message
  \<^verbatim>\<open>Connector with ID '<id>' and credential ID '<id>' does not exist. Has it already been deleted?\<close>,
  and the lookup is the only collaborator call made: no cancellation, no admission check,
  no job submission, no file deletion.
\<close>

theorem C2_absent_pair_not_found:
  assumes "get_connector_credential_pair env cid crid (ext w) = (Inr None, x1)"
  shows "create_deletion_attempt_for_connector_id env \<lparr>connector_id = cid, credential_id = crid\<rparr> w =
           (Inl (HTTPException 404
                  (''Connector with ID '' @ [CHR 0x27] @ str_int cid @ [CHR 0x27]
                   @ '' and credential ID '' @ [CHR 0x27] @ str_int crid @ [CHR 0x27]
                   @ '' does not exist. Has it already been deleted?'')),
            w\<lparr>calls := calls w @ [GetConnectorCredentialPair cid crid], ext := x1\<rparr>)"
  using call_eq[where m = "get_connector_credential_pair env cid crid" and w = w
      and c = "GetConnectorCredentialPair cid crid", OF assms]
  by (simp add: create_deletion_attempt_for_connector_id_def Let_def bindH_def raiseH_def
      not_found_detail_def)

theorem C2_witness:
  "create_deletion_attempt_for_connector_id (stub_deletion_env None)
     \<lparr>connector_id = 7, credential_id = 3\<rparr> (stub_world [''a.pdf'', ''b.pdf'']) =
   (Inl (HTTPException 404
          (''Connector with ID '' @ [CHR 0x27] @ ''7'' @ [CHR 0x27] @ '' and credential ID ''
           @ [CHR 0x27] @ ''3'' @ [CHR 0x27] @ '' does not exist. Has it already been deleted?'')),
    \<lparr>kv_store = Map.empty, calls = [GetConnectorCredentialPair 7 3], ext = [''a.pdf'', ''b.pdf'']\<rparr>)"
  using C2_absent_pair_not_found[where env = "stub_deletion_env None" and cid = 7 and crid = 3
      and w = "stub_world [''a.pdf'', ''b.pdf'']" and ?x1.0 = "[''a.pdf'', ''b.pdf'']"]
  by (simp add: stub_deletion_env_def stub_world_def str_int_def str_nat.simps digit_char_def)

text \<open>
  Claim C3, amended. For a deletion request on an existing pair that the admission policy
  denies with a non-empty reason text (the handler tests the reason for truth), the handler
  raises \<^verbatim>\<open>HTTPException(400)\<close> with that reason verbatim; the calls made are the lookup,
  the cancellation and the admission check and nothing else (no job is submitted, no file
  is deleted), and the outside state is the one the cancellation and the check left: the
  cancellation is not undone.
\<close>

theorem C3_denied_request:
  assumes lookup: "get_connector_credential_pair env cid crid (ext w) = (Inr (Some cc_pair), x1)"
    and cancel: "cancel_indexing_attempts_for_connector env cid True x1 = (Inr (), x2)"
    and policy: "check_deletion_attempt_is_allowed env cc_pair x2 = (Inr (Some reason), x3)"
    and denied: "reason \<noteq> []"
  shows "create_deletion_attempt_for_connector_id env \<lparr>connector_id = cid, credential_id = crid\<rparr> w =
           (Inl (HTTPException 400 reason),
            w\<lparr>calls := calls w @ [GetConnectorCredentialPair cid crid,
                                   CancelIndexingAttempts cid True,
                                   CheckDeletionAllowed cc_pair],
              ext := x3\<rparr>)"
  using lookup cancel policy denied
  by (simp add: create_deletion_attempt_for_connector_id_def Let_def bindH_def call_def raiseH_def)

theorem C3_witness:
  "create_deletion_attempt_for_connector_id (stub_deletion_env (Some ''deletion already in progress''))
     \<lparr>connector_id = 1, credential_id = 2\<rparr> (stub_world [''a.pdf'', ''b.pdf'']) =
   (Inl (HTTPException 400 ''deletion already in progress''),
    \<lparr>kv_store = Map.empty,
      calls = [GetConnectorCredentialPair 1 2, CancelIndexingAttempts 1 True,
               CheckDeletionAllowed stub_pair],
      ext = [''a.pdf'', ''b.pdf'']\<rparr>)"
  using C3_denied_request[where env = "stub_deletion_env (Some ''deletion already in progress'')"
      and cid = 1 and crid = 2 and w = "stub_world [''a.pdf'', ''b.pdf'']" and cc_pair = stub_pair
      and ?x1.0 = "[''a.pdf'', ''b.pdf'']" and ?x2.0 = "[''a.pdf'', ''b.pdf'']"
      and ?x3.0 = "[''a.pdf'', ''b.pdf'']" and reason = "''deletion already in progress''"]
  by (simp add: stub_deletion_env_def stub_world_def)

text \<open>
  Counterexample to claim C3 as stated. A policy that denies with the empty string as its
  reason text: the handler tests the reason for truth, the empty string is falsy, and the
  request is admitted, the cleanup job submitted and both files deleted.
\<close>

theorem C3_counterexample:
  "create_deletion_attempt_for_connector_id (stub_deletion_env (Some ''''))
     \<lparr>connector_id = 1, credential_id = 2\<rparr> (stub_world [''a.pdf'', ''b.pdf'']) =
   (Inr (),
    \<lparr>kv_store = Map.empty,
      calls = [GetConnectorCredentialPair 1 2, CancelIndexingAttempts 1 True,
               CheckDeletionAllowed stub_pair, ApplyAsync 1 2,
               GetDefaultFileStore, DeleteFile ''a.pdf'', DeleteFile ''b.pdf''],
      ext = []\<rparr>)
   \<and> fst (create_deletion_attempt_for_connector_id (stub_deletion_env (Some ''''))
          \<lparr>connector_id = 1, credential_id = 2\<rparr> (stub_world [''a.pdf'', ''b.pdf'']))
       \<noteq> Inl (HTTPException 400 '''')"
  by (simp add: create_deletion_attempt_for_connector_id_def stub_deletion_env_def
      stub_world_def stub_pair_def Let_def bindH_def call_def returnH_def)



subsection \<open>Deletion: failure of a file deletion\<close>

text \<open>
  Claim C5. For an admitted deletion request on a \<^verbatim>\<open>FILE\<close> connector: when, after the files
  \<open>pre\<close> have been deleted, the call \<^verbatim>\<open>delete_file(f)\<close> raises \<open>e\<close>, the handler raises that
  same \<open>e\<close> (it is neither caught nor translated), the remaining files \<open>post\<close> are not
  attempted, and the call log ends with that failed call: the \<^verbatim>\<open>apply_async\<close> submission
  made before stays in the log and no call follows that could undo it.
\<close>

theorem C5_file_deletion_failure_propagates:
  assumes lookup: "get_connector_credential_pair env cid crid (ext w) = (Inr (Some cc_pair), x1)"
    and cancel: "cancel_indexing_attempts_for_connector env cid True x1 = (Inr (), x2)"
    and policy: "check_deletion_attempt_is_allowed env cc_pair x2 = (Inr reason, x3)"
    and allowed: "\<not> truthy reason"
    and submit: "apply_async env cid crid x3 = (Inr (), x4)"
    and is_file: "source (connector cc_pair) = FILE"
    and store: "get_default_file_store env x4 = (Inr (), x5)"
    and cfg: "connector_specific_config (connector cc_pair) ''file_locations'' = Some v"
    and iter: "py_iter v = Inr (pre @ f # post)"
    and deleted: "delete_files env pre
                    (w\<lparr>calls := calls w @ [GetConnectorCredentialPair cid crid,
                                           CancelIndexingAttempts cid True,
                                           CheckDeletionAllowed cc_pair,
                                           ApplyAsync cid crid,
                                           GetDefaultFileStore],
                       ext := x5\<rparr>) = (Inr (), w6)"
    and fails: "delete_file env f (ext w6) = (Inl e, x7)"
  shows "create_deletion_attempt_for_connector_id env \<lparr>connector_id = cid, credential_id = crid\<rparr> w =
           (Inl e, w6\<lparr>calls := calls w6 @ [DeleteFile f], ext := x7\<rparr>)
       \<and> calls w6 = calls w @ [GetConnectorCredentialPair cid crid,
                                CancelIndexingAttempts cid True,
                                CheckDeletionAllowed cc_pair,
                                ApplyAsync cid crid,
                                GetDefaultFileStore] @ map DeleteFile pre"
proof -
  let ?w5 = "w\<lparr>calls := calls w @ [GetConnectorCredentialPair cid crid,
                 CancelIndexingAttempts cid True, CheckDeletionAllowed cc_pair,
                 ApplyAsync cid crid, GetDefaultFileStore], ext := x5\<rparr>"
  have "create_deletion_attempt_for_connector_id env \<lparr>connector_id = cid, credential_id = crid\<rparr> w
          = delete_files env (pre @ f # post) ?w5"
    using lookup cancel policy allowed submit is_file store cfg iter
    by (simp add: create_deletion_attempt_for_connector_id_def Let_def bindH_def call_def)
  also have "\<dots> = delete_files env (f # post) w6"
    by (rule delete_files_append[OF deleted])
  also have "\<dots> = (Inl e, w6\<lparr>calls := calls w6 @ [DeleteFile f], ext := x7\<rparr>)"
    using fails by (simp add: bindH_def call_def)
  finally have res: "create_deletion_attempt_for_connector_id env
      \<lparr>connector_id = cid, credential_id = crid\<rparr> w =
      (Inl e, w6\<lparr>calls := calls w6 @ [DeleteFile f], ext := x7\<rparr>)" .
  from delete_files_ok[OF deleted] have "calls w6 = calls ?w5 @ map DeleteFile pre" by simp
  with res show ?thesis by simp
qed

theorem C5_witness:
  "create_deletion_attempt_for_connector_id (stub_deletion_env None)
     \<lparr>connector_id = 1, credential_id = 2\<rparr> (stub_world [''a.pdf'']) =
   (Inl (OtherError ''file not found''),
    \<lparr>kv_store = Map.empty,
      calls = [GetConnectorCredentialPair 1 2, CancelIndexingAttempts 1 True,
               CheckDeletionAllowed stub_pair, ApplyAsync 1 2,
               GetDefaultFileStore, DeleteFile ''a.pdf'', DeleteFile ''b.pdf''],
      ext = []\<rparr>)"
  using C5_file_deletion_failure_propagates[where env = "stub_deletion_env None"
      and cid = 1 and crid = 2 and w = "stub_world [''a.pdf'']" and cc_pair = stub_pair
      and ?x1.0 = "[''a.pdf'']" and ?x2.0 = "[''a.pdf'']" and ?x3.0 = "[''a.pdf'']"
      and ?x4.0 = "[''a.pdf'']" and ?x5.0 = "[''a.pdf'']" and reason = None
      and v = "CfgList [''a.pdf'', ''b.pdf'']" and pre = "[''a.pdf'']" and f = "''b.pdf''"
      and post = "[]" and e = "OtherError ''file not found''" and ?x7.0 = "[]"
      and ?w6.0 = "\<lparr>kv_store = Map.empty,
                 calls = [GetConnectorCredentialPair 1 2, CancelIndexingAttempts 1 True,
                          CheckDeletionAllowed stub_pair, ApplyAsync 1 2,
                          GetDefaultFileStore, DeleteFile ''a.pdf''],
                 ext = []\<rparr>"]
  by (simp add: stub_deletion_env_def stub_world_def stub_pair_def bindH_def call_def returnH_def)

subsection \<open>Deactivating a user\<close>

text \<open>
  Claim C9, amended. When the requesting admin's email equals the target email,
  \<^verbatim>\<open>deactivate_user\<close> raises \<^verbatim>\<open>HTTPException(400, "You cannot deactivate yourself")\<close> and the
  world is unchanged: no user lookup, no database write, no call at all. And when the user
  lookup returns only a user whose email is the one asked for, no request makes the handler
  write a row for the requesting admin: every row passed to \<^verbatim>\<open>db_session.add\<close> is the user the
  lookup returned for the target email, with \<^verbatim>\<open>is_active\<close> set to false, and its email differs
  from the admin's.
\<close>

theorem C9_cannot_deactivate_self:
  assumes run: "deactivate_user env target current_user w = (r, w')"
    and exact: "\<And>u x1. get_user_by_email env (user_email target) (ext w) = (Inr (Some u), x1)
                  \<Longrightarrow> email u = user_email target"
  shows "(email current_user = user_email target \<longrightarrow>
            r = Inl (HTTPException 400 ''You cannot deactivate yourself'') \<and> w' = w)
       \<and> (\<exists>new. calls w' = calls w @ new
             \<and> (\<forall>v. DbAdd v \<in> set new \<longrightarrow>
                    email v \<noteq> email current_user
                  \<and> (\<exists>u x1. get_user_by_email env (user_email target) (ext w) = (Inr (Some u), x1)
                            \<and> v = u\<lparr>is_active := False\<rparr>)))"
proof (cases "email current_user = user_email target")
  case True
  with run have "r = Inl (HTTPException 400 ''You cannot deactivate yourself'')" "w' = w"
    by (simp_all add: deactivate_user_def raiseH_def)
  then show ?thesis by simp
next
  case False
  obtain l x1 where lookup: "get_user_by_email env (user_email target) (ext w) = (l, x1)"
    by (cases "get_user_by_email env (user_email target) (ext w)")
  let ?G = "GetUserByEmail (user_email target)"
  have "\<exists>new. calls w' = calls w @ new
         \<and> (\<forall>v. DbAdd v \<in> set new \<longrightarrow> (\<exists>u. l = Inr (Some u) \<and> v = u\<lparr>is_active := False\<rparr>))"
  proof (cases l)
    case (Inl e)
    with run False lookup have "calls w' = calls w @ [?G]"
      by (auto simp: deactivate_user_def bindH_def call_def)
    then show ?thesis by simp
  next
    case (Inr found)
    show ?thesis
    proof (cases found)
      case None
      with run False lookup Inr have "calls w' = calls w @ [?G]"
        by (auto simp: deactivate_user_def bindH_def call_def raiseH_def)
      then show ?thesis by simp
    next
      case (Some u)
      let ?u' = "u\<lparr>is_active := False\<rparr>"
      let ?L = "LoggerWarning (email u @ '' is already deactivated'')"
      from run False lookup Inr Some have
        "calls w' = calls w @ [?G, ?L]
         \<or> calls w' = calls w @ [?G, ?L, DbAdd ?u']
         \<or> calls w' = calls w @ [?G, ?L, DbAdd ?u', DbCommit]
         \<or> calls w' = calls w @ [?G, DbAdd ?u']
         \<or> calls w' = calls w @ [?G, DbAdd ?u', DbCommit]"
        by (auto simp: deactivate_user_def bindH_def call_def returnH_def Let_def
                 split: prod.splits sum.splits if_splits)
      then show ?thesis using Inr Some by auto
    qed
  qed
  then obtain new where new: "calls w' = calls w @ new"
    "\<forall>v. DbAdd v \<in> set new \<longrightarrow> (\<exists>u. l = Inr (Some u) \<and> v = u\<lparr>is_active := False\<rparr>)"
    by blast
  have "email v \<noteq> email current_user
      \<and> (\<exists>u x1. get_user_by_email env (user_email target) (ext w) = (Inr (Some u), x1)
                \<and> v = u\<lparr>is_active := False\<rparr>)" if "DbAdd v \<in> set new" for v
  proof -
    from new(2) that obtain u where u: "l = Inr (Some u)" "v = u\<lparr>is_active := False\<rparr>" by blast
    from exact[of u x1] lookup u(1) have "email u = user_email target" by simp
    with False u(2) have "email v \<noteq> email current_user" by simp
    with lookup u show ?thesis by blast
  qed
  with new(1) False show ?thesis by blast
qed

theorem C9_witness:
  "deactivate_user stub_user_env \<lparr>user_email = ''admin@example.com''\<rparr>
     \<lparr>email = ''admin@example.com'', is_active = True\<rparr> (stub_world ()) =
   (Inl (HTTPException 400 ''You cannot deactivate yourself''), stub_world ())
   \<and> calls (snd (deactivate_user stub_user_env \<lparr>user_email = ''bob@example.com''\<rparr>
        \<lparr>email = ''admin@example.com'', is_active = True\<rparr> (stub_world ())))
       = [GetUserByEmail ''bob@example.com'',
          DbAdd \<lparr>email = ''bob@example.com'', is_active = False\<rparr>, DbCommit]"
proof -
  let ?admin = "\<lparr>email = ''admin@example.com'', is_active = True\<rparr>"
  let ?w = "stub_world () :: (int, unit) world"
  let ?run = "deactivate_user stub_user_env \<lparr>user_email = ''admin@example.com''\<rparr> ?admin ?w"
  have run: "?run = (fst ?run, snd ?run)" by simp
  have exact: "\<And>u x1. get_user_by_email stub_user_env
        (user_email \<lparr>user_email = ''admin@example.com''\<rparr>) (ext ?w) = (Inr (Some u), x1)
      \<Longrightarrow> email u = user_email \<lparr>user_email = ''admin@example.com''\<rparr>"
    by (auto simp: stub_user_env_def)
  from C9_cannot_deactivate_self[OF run exact]
  have "fst ?run = Inl (HTTPException 400 ''You cannot deactivate yourself'') \<and> snd ?run = ?w"
    by simp
  then have first: "?run = (Inl (HTTPException 400 ''You cannot deactivate yourself''), ?w)"
    by (simp add: prod_eq_iff)
  have second: "calls (snd (deactivate_user stub_user_env \<lparr>user_email = ''bob@example.com''\<rparr>
        ?admin ?w))
       = [GetUserByEmail ''bob@example.com'',
          DbAdd \<lparr>email = ''bob@example.com'', is_active = False\<rparr>, DbCommit]"
    by (simp add: deactivate_user_def stub_user_env_def stub_world_def bindH_def call_def
        returnH_def Let_def)
  from first second show ?thesis by simp
qed

text \<open>
  Counterexample to claim C9 as stated. The handler compares the two email strings for
  equality; with a user lookup that resolves another spelling of the admin's email to the
  admin's own row, a request that names that spelling passes the guard and deactivates the
  requesting admin.
\<close>

theorem C9_counterexample:
  "deactivate_user stub_ci_user_env \<lparr>user_email = ''Admin@example.com''\<rparr>
     \<lparr>email = ''admin@example.com'', is_active = True\<rparr>
     (stub_world [\<lparr>email = ''admin@example.com'', is_active = True\<rparr>]) =
   (Inr (),
    \<lparr>kv_store = Map.empty,
      calls = [GetUserByEmail ''Admin@example.com'',
               DbAdd \<lparr>email = ''admin@example.com'', is_active = False\<rparr>,
               DbCommit],
      ext = [\<lparr>email = ''admin@example.com'', is_active = False\<rparr>]\<rparr>)"
  by (simp add: deactivate_user_def stub_ci_user_env_def stub_world_def lower_def
      bindH_def call_def returnH_def Let_def)

subsection \<open>The cooldown gate of the API key validation\<close>

lemma gate_skips:
  assumes now: "utcnow env (ext w) = (t, x1)"
    and stored: "kv_store w GEN_AI_KEY_CHECK_TIME = Some (KVFloat ts)"
    and conv: "fromtimestamp env ts = Inr last_check"
    and freq: "timedelta_seconds (GENERATIVE_MODEL_ACCESS_CHECK_FREQ env) = Inr cooldown"
    and recent: "t - last_check < cooldown"
  shows "validate_existing_genai_api_key env w = (Inr (), w\<lparr>ext := x1\<rparr>)"
  using assms
  by (simp add: validate_existing_genai_api_key_def datetime_now_def bindH_def
      except_ConfigNotFoundError_def kv_load_def liftE_def datetime_fromtimestamp_def
      returnH_def)

text \<open>The handler from \<^verbatim>\<open>get_default_llm\<close> on, which runs when the check is due.\<close>

lemma gate_validates:
  assumes now: "utcnow env (ext w) = (t, x1)"
    and due: "kv_store w GEN_AI_KEY_CHECK_TIME = None
              \<or> (\<exists>ts last_check cooldown.
                    kv_store w GEN_AI_KEY_CHECK_TIME = Some (KVFloat ts)
                    \<and> fromtimestamp env ts = Inr last_check
                    \<and> timedelta_seconds (GENERATIVE_MODEL_ACCESS_CHECK_FREQ env) = Inr cooldown
                    \<and> \<not> t - last_check < cooldown)"
  shows "validate_existing_genai_api_key env w =
           bindH (except_ValueError
                    (call (GetDefaultLlm 10) (get_default_llm env 10))
                    (raiseH (HTTPException 404 ''LLM not setup'')))
             (\<lambda>llm.
           bindH (call TestLlm (test_llm env llm))
             (\<lambda>error.
           if truthy error then raiseH (HTTPException 400 (the error))
           else
           bindH (datetime_now env)
             (\<lambda>curr_time.
           kv_put GEN_AI_KEY_CHECK_TIME (KVFloat (timestamp env curr_time)))))
           (w\<lparr>ext := x1\<rparr>)"
  using due
proof
  assume "kv_store w GEN_AI_KEY_CHECK_TIME = None"
  with now show ?thesis
    by (simp add: validate_existing_genai_api_key_def datetime_now_def bindH_def
        except_ConfigNotFoundError_def kv_load_def returnH_def)
next
  assume "\<exists>ts last_check cooldown.
            kv_store w GEN_AI_KEY_CHECK_TIME = Some (KVFloat ts)
            \<and> fromtimestamp env ts = Inr last_check
            \<and> timedelta_seconds (GENERATIVE_MODEL_ACCESS_CHECK_FREQ env) = Inr cooldown
            \<and> \<not> t - last_check < cooldown"
  then obtain ts last_check cooldown where
    "kv_store w GEN_AI_KEY_CHECK_TIME = Some (KVFloat ts)"
    "fromtimestamp env ts = Inr last_check"
    "timedelta_seconds (GENERATIVE_MODEL_ACCESS_CHECK_FREQ env) = Inr cooldown"
    "\<not> t - last_check < cooldown"
    by blast
  with now show ?thesis
    by (simp add: validate_existing_genai_api_key_def datetime_now_def bindH_def
        except_ConfigNotFoundError_def kv_load_def liftE_def datetime_fromtimestamp_def
        returnH_def)
qed

lemma except_ValueError_call:
  "except_ValueError (call c m) (raiseH h) w =
     (case m (ext w) of
        (Inl e, x) \<Rightarrow> (Inl (if is_ValueError e then h else e), w\<lparr>calls := calls w @ [c], ext := x\<rparr>)
      | (Inr a, x) \<Rightarrow> (Inr a, w\<lparr>calls := calls w @ [c], ext := x\<rparr>))"
  by (simp add: except_ValueError_def call_def raiseH_def split: prod.splits sum.splits)

text \<open>The outcome of the validation itself, by the outcomes of the collaborators.\<close>

lemma validation_outcome:
  assumes now: "utcnow env (ext w) = (t, x1)"
    and due: "kv_store w GEN_AI_KEY_CHECK_TIME = None
              \<or> (\<exists>ts last_check cooldown.
                    kv_store w GEN_AI_KEY_CHECK_TIME = Some (KVFloat ts)
                    \<and> fromtimestamp env ts = Inr last_check
                    \<and> timedelta_seconds (GENERATIVE_MODEL_ACCESS_CHECK_FREQ env) = Inr cooldown
                    \<and> \<not> t - last_check < cooldown)"
    and client: "get_default_llm env 10 x1 = (g, x2)"
  shows "validate_existing_genai_api_key env w =
     (case g of
        Inl e \<Rightarrow>
          (Inl (if is_ValueError e then HTTPException 404 ''LLM not setup'' else e),
           w\<lparr>calls := calls w @ [GetDefaultLlm 10], ext := x2\<rparr>)
      | Inr llm \<Rightarrow>
          (case test_llm env llm x2 of
             (Inl e, x3) \<Rightarrow>
               (Inl e, w\<lparr>calls := calls w @ [GetDefaultLlm 10, TestLlm], ext := x3\<rparr>)
           | (Inr error, x3) \<Rightarrow>
               if truthy error
               then (Inl (HTTPException 400 (the error)),
                     w\<lparr>calls := calls w @ [GetDefaultLlm 10, TestLlm], ext := x3\<rparr>)
               else (case utcnow env x3 of
                       (t1, x4) \<Rightarrow>
                         (Inr (),
                          w\<lparr>kv_store := (kv_store w)(GEN_AI_KEY_CHECK_TIME \<mapsto> KVFloat (timestamp env t1)),
                            calls := calls w @ [GetDefaultLlm 10, TestLlm],
                            ext := x4\<rparr>))))"
  using client
  by (simp add: gate_validates[OF now due] bindH_def except_ValueError_call call_def raiseH_def
      datetime_now_def kv_put_def split: sum.splits prod.splits)

text \<open>
  Claim C6. With \<open>t\<close> the time read at entry and \<open>cooldown\<close> the duration
  \<^verbatim>\<open>timedelta(seconds=GENERATIVE_MODEL_ACCESS_CHECK_FREQ)\<close>: if the store holds a last-check
  timestamp that reads back as \<open>last_check\<close> and \<open>t - last_check < cooldown\<close>, the handler
  returns successfully and the world is the initial one but for the clock: no collaborator
  was called, nothing was written. If the store holds no record, the validation is always
  run: \<^verbatim>\<open>get_default_llm(timeout=10)\<close> is applied to the state the clock left, and the result of
  the handler is the result of the validation (the exception or the 404 of the setup, the
  exception or the 400 of \<^verbatim>\<open>test_llm\<close>, or success with the new timestamp written); the
  missing record itself raises nothing.
\<close>

theorem C6_cooldown_gate:
  assumes now: "utcnow env (ext w) = (t, x1)"
    and client: "get_default_llm env 10 x1 = (g, x2)"
    and run: "validate_existing_genai_api_key env w = (r, w')"
  shows "(\<forall>ts last_check cooldown.
            kv_store w GEN_AI_KEY_CHECK_TIME = Some (KVFloat ts) \<longrightarrow>
            fromtimestamp env ts = Inr last_check \<longrightarrow>
            timedelta_seconds (GENERATIVE_MODEL_ACCESS_CHECK_FREQ env) = Inr cooldown \<longrightarrow>
            t - last_check < cooldown \<longrightarrow>
            r = Inr () \<and> w' = w\<lparr>ext := x1\<rparr>)
       \<and> (kv_store w GEN_AI_KEY_CHECK_TIME = None \<longrightarrow>
            (\<forall>e. g = Inl e \<longrightarrow>
               r = Inl (if is_ValueError e then HTTPException 404 ''LLM not setup'' else e)
             \<and> w' = w\<lparr>calls := calls w @ [GetDefaultLlm 10], ext := x2\<rparr>)
          \<and> (\<forall>llm tr x3. g = Inr llm \<longrightarrow> test_llm env llm x2 = (tr, x3) \<longrightarrow>
               (\<forall>e. tr = Inl e \<longrightarrow>
                  r = Inl e
                \<and> w' = w\<lparr>calls := calls w @ [GetDefaultLlm 10, TestLlm], ext := x3\<rparr>)
             \<and> (\<forall>error. tr = Inr error \<longrightarrow> truthy error \<longrightarrow>
                  r = Inl (HTTPException 400 (the error))
                \<and> w' = w\<lparr>calls := calls w @ [GetDefaultLlm 10, TestLlm], ext := x3\<rparr>)
             \<and> (\<forall>error t1 x4. tr = Inr error \<longrightarrow> \<not> truthy error \<longrightarrow>
                  utcnow env x3 = (t1, x4) \<longrightarrow>
                  r = Inr ()
                \<and> w' = w\<lparr>kv_store := (kv_store w)(GEN_AI_KEY_CHECK_TIME \<mapsto> KVFloat (timestamp env t1)),
                          calls := calls w @ [GetDefaultLlm 10, TestLlm],
                          ext := x4\<rparr>)))"
proof (rule conjI)
  show "\<forall>ts last_check cooldown.
            kv_store w GEN_AI_KEY_CHECK_TIME = Some (KVFloat ts) \<longrightarrow>
            fromtimestamp env ts = Inr last_check \<longrightarrow>
            timedelta_seconds (GENERATIVE_MODEL_ACCESS_CHECK_FREQ env) = Inr cooldown \<longrightarrow>
            t - last_check < cooldown \<longrightarrow>
            r = Inr () \<and> w' = w\<lparr>ext := x1\<rparr>"
  proof (intro allI impI)
    fix ts last_check cooldown
    assume "kv_store w GEN_AI_KEY_CHECK_TIME = Some (KVFloat ts)"
      "fromtimestamp env ts = Inr last_check"
      "timedelta_seconds (GENERATIVE_MODEL_ACCESS_CHECK_FREQ env) = Inr cooldown"
      "t - last_check < cooldown"
    from gate_skips[OF now this] run show "r = Inr () \<and> w' = w\<lparr>ext := x1\<rparr>" by simp
  qed
next
  show "kv_store w GEN_AI_KEY_CHECK_TIME = None \<longrightarrow>
            (\<forall>e. g = Inl e \<longrightarrow>
               r = Inl (if is_ValueError e then HTTPException 404 ''LLM not setup'' else e)
             \<and> w' = w\<lparr>calls := calls w @ [GetDefaultLlm 10], ext := x2\<rparr>)
          \<and> (\<forall>llm tr x3. g = Inr llm \<longrightarrow> test_llm env llm x2 = (tr, x3) \<longrightarrow>
               (\<forall>e. tr = Inl e \<longrightarrow>
                  r = Inl e
                \<and> w' = w\<lparr>calls := calls w @ [GetDefaultLlm 10, TestLlm], ext := x3\<rparr>)
             \<and> (\<forall>error. tr = Inr error \<longrightarrow> truthy error \<longrightarrow>
                  r = Inl (HTTPException 400 (the error))
                \<and> w' = w\<lparr>calls := calls w @ [GetDefaultLlm 10, TestLlm], ext := x3\<rparr>)
             \<and> (\<forall>error t1 x4. tr = Inr error \<longrightarrow> \<not> truthy error \<longrightarrow>
                  utcnow env x3 = (t1, x4) \<longrightarrow>
                  r = Inr ()
                \<and> w' = w\<lparr>kv_store := (kv_store w)(GEN_AI_KEY_CHECK_TIME \<mapsto> KVFloat (timestamp env t1)),
                          calls := calls w @ [GetDefaultLlm 10, TestLlm],
                          ext := x4\<rparr>))"
  proof (rule impI)
    assume none: "kv_store w GEN_AI_KEY_CHECK_TIME = None"
    note out = validation_outcome[OF now disjI1[OF none] client]
    show "(\<forall>e. g = Inl e \<longrightarrow>
               r = Inl (if is_ValueError e then HTTPException 404 ''LLM not setup'' else e)
             \<and> w' = w\<lparr>calls := calls w @ [GetDefaultLlm 10], ext := x2\<rparr>)
          \<and> (\<forall>llm tr x3. g = Inr llm \<longrightarrow> test_llm env llm x2 = (tr, x3) \<longrightarrow>
               (\<forall>e. tr = Inl e \<longrightarrow>
                  r = Inl e
                \<and> w' = w\<lparr>calls := calls w @ [GetDefaultLlm 10, TestLlm], ext := x3\<rparr>)
             \<and> (\<forall>error. tr = Inr error \<longrightarrow> truthy error \<longrightarrow>
                  r = Inl (HTTPException 400 (the error))
                \<and> w' = w\<lparr>calls := calls w @ [GetDefaultLlm 10, TestLlm], ext := x3\<rparr>)
             \<and> (\<forall>error t1 x4. tr = Inr error \<longrightarrow> \<not> truthy error \<longrightarrow>
                  utcnow env x3 = (t1, x4) \<longrightarrow>
                  r = Inr ()
                \<and> w' = w\<lparr>kv_store := (kv_store w)(GEN_AI_KEY_CHECK_TIME \<mapsto> KVFloat (timestamp env t1)),
                          calls := calls w @ [GetDefaultLlm 10, TestLlm],
                          ext := x4\<rparr>))"
      using out run by (cases g) auto
  qed
qed

theorem C6_witness:
  "validate_existing_genai_api_key (stub_llm_env True None)
     \<lparr>kv_store = [GEN_AI_KEY_CHECK_TIME \<mapsto> KVFloat 0], calls = [], ext = 5000000\<rparr>
   = (Inr (), \<lparr>kv_store = [GEN_AI_KEY_CHECK_TIME \<mapsto> KVFloat 0], calls = [], ext = 6000000\<rparr>)
   \<and> validate_existing_genai_api_key (stub_llm_env True None)
     \<lparr>kv_store = Map.empty, calls = [], ext = 5000000\<rparr>
   = (Inr (), \<lparr>kv_store = [GEN_AI_KEY_CHECK_TIME \<mapsto> KVFloat 6000000],
                calls = [GetDefaultLlm 10, TestLlm], ext = 7000000\<rparr>)"
proof -
  let ?env = "stub_llm_env True None"
  let ?w1 = "\<lparr>kv_store = [GEN_AI_KEY_CHECK_TIME \<mapsto> KVFloat (0::int)], calls = [], ext = 5000000::int\<rparr>"
  let ?w2 = "\<lparr>kv_store = (Map.empty :: string \<rightharpoonup> int kv_value), calls = [], ext = 5000000::int\<rparr>"
  have now1: "utcnow ?env (ext ?w1) = (5000000, 6000000)"
    and now2: "utcnow ?env (ext ?w2) = (5000000, 6000000)"
    and client: "get_default_llm ?env 10 6000000 = (Inr (), 6000000)"
    by (simp_all add: stub_llm_env_def)
  have run1: "validate_existing_genai_api_key ?env ?w1 =
      (fst (validate_existing_genai_api_key ?env ?w1), snd (validate_existing_genai_api_key ?env ?w1))"
    and run2: "validate_existing_genai_api_key ?env ?w2 =
      (fst (validate_existing_genai_api_key ?env ?w2), snd (validate_existing_genai_api_key ?env ?w2))"
    by simp_all
  from C6_cooldown_gate[OF now1 client run1]
  have "fst (validate_existing_genai_api_key ?env ?w1) = Inr ()
      \<and> snd (validate_existing_genai_api_key ?env ?w1) = ?w1\<lparr>ext := 6000000\<rparr>"
    by (simp add: stub_llm_env_def timedelta_seconds_def)
  then have a: "validate_existing_genai_api_key ?env ?w1 = (Inr (), ?w1\<lparr>ext := 6000000\<rparr>)"
    by (simp add: prod_eq_iff)
  from C6_cooldown_gate[OF now2 client run2]
  have "fst (validate_existing_genai_api_key ?env ?w2) = Inr ()
      \<and> snd (validate_existing_genai_api_key ?env ?w2)
          = ?w2\<lparr>kv_store := (kv_store ?w2)(GEN_AI_KEY_CHECK_TIME \<mapsto> KVFloat 6000000),
                 calls := calls ?w2 @ [GetDefaultLlm 10, TestLlm], ext := 7000000\<rparr>"
    by (simp add: stub_llm_env_def)
  then have b: "validate_existing_genai_api_key ?env ?w2
      = (Inr (), ?w2\<lparr>kv_store := (kv_store ?w2)(GEN_AI_KEY_CHECK_TIME \<mapsto> KVFloat 6000000),
                 calls := calls ?w2 @ [GetDefaultLlm 10, TestLlm], ext := 7000000\<rparr>)"
    by (simp add: prod_eq_iff)
  from a b show ?thesis by simp
qed

text \<open>
  Claim C7. After a successful validation (the check was due, the LLM client was set up and
  its test reported no error) the handler stores the timestamp of the time \<open>t1\<close> it reads
  after the test under the last-check key, whatever was there before, and changes nothing
  else in the store. A later call on any world whose store still holds that timestamp, made
  at a time \<open>t2\<close> less than the cooldown \<^verbatim>\<open>timedelta(seconds=GENERATIVE_MODEL_ACCESS_CHECK_FREQ)\<close>
  after the recorded time, returns successfully without calling any collaborator.
\<close>

theorem C7_timestamp_persisted:
  assumes now1: "utcnow env (ext w) = (t0, x1)"
    and due: "kv_store w GEN_AI_KEY_CHECK_TIME = None
              \<or> (\<exists>ts last_check cooldown.
                    kv_store w GEN_AI_KEY_CHECK_TIME = Some (KVFloat ts)
                    \<and> fromtimestamp env ts = Inr last_check
                    \<and> timedelta_seconds (GENERATIVE_MODEL_ACCESS_CHECK_FREQ env) = Inr cooldown
                    \<and> \<not> t0 - last_check < cooldown)"
    and llm: "get_default_llm env 10 x1 = (Inr llm, x2)"
    and test: "test_llm env llm x2 = (Inr err, x3)"
    and valid: "\<not> truthy err"
    and now2: "utcnow env x3 = (t1, x4)"
  shows "validate_existing_genai_api_key env w =
           (Inr (), w\<lparr>kv_store := (kv_store w)(GEN_AI_KEY_CHECK_TIME \<mapsto> KVFloat (timestamp env t1)),
                      calls := calls w @ [GetDefaultLlm 10, TestLlm],
                      ext := x4\<rparr>)
       \<and> (\<forall>w2 t2 x5 recorded cooldown.
             kv_store w2 GEN_AI_KEY_CHECK_TIME = Some (KVFloat (timestamp env t1)) \<longrightarrow>
             utcnow env (ext w2) = (t2, x5) \<longrightarrow>
             fromtimestamp env (timestamp env t1) = Inr recorded \<longrightarrow>
             timedelta_seconds (GENERATIVE_MODEL_ACCESS_CHECK_FREQ env) = Inr cooldown \<longrightarrow>
             t2 - recorded < cooldown \<longrightarrow>
             validate_existing_genai_api_key env w2 = (Inr (), w2\<lparr>ext := x5\<rparr>))"
proof (rule conjI)
  show "validate_existing_genai_api_key env w =
           (Inr (), w\<lparr>kv_store := (kv_store w)(GEN_AI_KEY_CHECK_TIME \<mapsto> KVFloat (timestamp env t1)),
                      calls := calls w @ [GetDefaultLlm 10, TestLlm],
                      ext := x4\<rparr>)"
    using test valid now2
    by (simp add: validation_outcome[OF now1 due llm])
next
  show "\<forall>w2 t2 x5 recorded cooldown.
             kv_store w2 GEN_AI_KEY_CHECK_TIME = Some (KVFloat (timestamp env t1)) \<longrightarrow>
             utcnow env (ext w2) = (t2, x5) \<longrightarrow>
             fromtimestamp env (timestamp env t1) = Inr recorded \<longrightarrow>
             timedelta_seconds (GENERATIVE_MODEL_ACCESS_CHECK_FREQ env) = Inr cooldown \<longrightarrow>
             t2 - recorded < cooldown \<longrightarrow>
             validate_existing_genai_api_key env w2 = (Inr (), w2\<lparr>ext := x5\<rparr>)"
    by (intro allI impI) (rule gate_skips, assumption+)
qed

theorem C7_witness:
  "validate_existing_genai_api_key (stub_llm_env True None)
     \<lparr>kv_store = [GEN_AI_KEY_CHECK_TIME \<mapsto> KVFloat 0], calls = [], ext = 90000000000\<rparr>
   = (Inr (), \<lparr>kv_store = [GEN_AI_KEY_CHECK_TIME \<mapsto> KVFloat 90001000000],
                calls = [GetDefaultLlm 10, TestLlm], ext = 90002000000\<rparr>)
   \<and> validate_existing_genai_api_key (stub_llm_env True None)
     \<lparr>kv_store = [GEN_AI_KEY_CHECK_TIME \<mapsto> KVFloat 90001000000],
      calls = [GetDefaultLlm 10, TestLlm], ext = 90002000000\<rparr>
   = (Inr (), \<lparr>kv_store = [GEN_AI_KEY_CHECK_TIME \<mapsto> KVFloat 90001000000],
                calls = [GetDefaultLlm 10, TestLlm], ext = 90003000000\<rparr>)"
proof -
  let ?env = "stub_llm_env True None"
  let ?w = "\<lparr>kv_store = [GEN_AI_KEY_CHECK_TIME \<mapsto> KVFloat (0::int)], calls = [], ext = 90000000000::int\<rparr>"
  let ?w1 = "\<lparr>kv_store = [GEN_AI_KEY_CHECK_TIME \<mapsto> KVFloat (90001000000::int)],
      calls = [GetDefaultLlm 10, TestLlm], ext = 90002000000::int\<rparr>"
  have freq: "timedelta_seconds (GENERATIVE_MODEL_ACCESS_CHECK_FREQ ?env) = Inr 86400000000"
    by (simp add: stub_llm_env_def timedelta_seconds_def)
  have now1: "utcnow ?env (ext ?w) = (90000000000, 90001000000)"
    by (simp add: stub_llm_env_def)
  have due: "kv_store ?w GEN_AI_KEY_CHECK_TIME = None
              \<or> (\<exists>ts last_check cooldown.
                    kv_store ?w GEN_AI_KEY_CHECK_TIME = Some (KVFloat ts)
                    \<and> fromtimestamp ?env ts = Inr last_check
                    \<and> timedelta_seconds (GENERATIVE_MODEL_ACCESS_CHECK_FREQ ?env) = Inr cooldown
                    \<and> \<not> 90000000000 - last_check < cooldown)"
    by (simp add: freq) (simp add: stub_llm_env_def)
  have llm: "get_default_llm ?env 10 90001000000 = (Inr (), 90001000000)"
    and test: "test_llm ?env () 90001000000 = (Inr None, 90001000000)"
    and now2: "utcnow ?env 90001000000 = (90001000000, 90002000000)"
    by (simp_all add: stub_llm_env_def)
  have valid: "\<not> truthy None" by simp
  note inst = C7_timestamp_persisted[OF now1 due llm test valid now2]
  from inst have first: "validate_existing_genai_api_key ?env ?w = (Inr (), ?w1)"
    by (simp add: stub_llm_env_def)
  from inst have "kv_store ?w1 GEN_AI_KEY_CHECK_TIME = Some (KVFloat (timestamp ?env 90001000000)) \<longrightarrow>
             utcnow ?env (ext ?w1) = (90002000000, 90003000000) \<longrightarrow>
             fromtimestamp ?env (timestamp ?env 90001000000) = Inr 90001000000 \<longrightarrow>
             timedelta_seconds (GENERATIVE_MODEL_ACCESS_CHECK_FREQ ?env) = Inr 86400000000 \<longrightarrow>
             90002000000 - 90001000000 < (86400000000::int) \<longrightarrow>
             validate_existing_genai_api_key ?env ?w1 = (Inr (), ?w1\<lparr>ext := 90003000000\<rparr>)"
    by blast
  then have second: "validate_existing_genai_api_key ?env ?w1 = (Inr (), ?w1\<lparr>ext := 90003000000\<rparr>)"
    using freq by (simp add: stub_llm_env_def)
  from first second show ?thesis by simp
qed



subsection \<open>JSON round trip and the token-budget settings\<close>

lemma escape_char_plain: "plain_char c \<Longrightarrow> escape_char c = [c]"
  by (auto simp: plain_char_def escape_char_def)

lemma encode_plain: "plain s \<Longrightarrow> py_encode_basestring_ascii s = dquote # s @ [dquote]"
  unfolding plain_def py_encode_basestring_ascii_def
  by (induction s) (simp_all add: escape_char_plain)

lemma scanstring_plain: "plain s \<Longrightarrow> scanstring (s @ dquote # rest) = Inr (s, rest)"
  unfolding plain_def
  by (induction s) (auto simp: plain_char_def cons_result_def)

lemma digit_char_props:
  "d < 10 \<Longrightarrow> is_digit (digit_char d) \<and> digit_val (digit_char d) = d"
proof -
  assume "d < 10"
  then have "d \<in> {0,1,2,3,4,5,6,7,8,9}" by auto
  then show ?thesis
    by (auto simp: digit_char_def is_digit_def digit_val_def)
qed

lemma digit_char_zero: "d < 10 \<Longrightarrow> digit_char d = CHR ''0'' \<longleftrightarrow> d = 0"
proof -
  assume "d < 10"
  then have "d \<in> {0,1,2,3,4,5,6,7,8,9}" by auto
  then show ?thesis
    by (auto simp: digit_char_def)
qed

lemma str_nat_digits: "list_all is_digit (str_nat n)"
proof (induction n rule: str_nat.induct)
  case (1 n)
  show ?case
  proof (cases "n < 10")
    case True
    then show ?thesis by (subst str_nat.simps) (simp add: digit_char_props)
  next
    case False
    with 1 show ?thesis by (subst str_nat.simps) (simp add: digit_char_props)
  qed
qed

lemma str_nat_nonempty: "str_nat n \<noteq> []"
  by (subst str_nat.simps) simp

lemma nat_of_digits_snoc: "nat_of_digits (ds @ [c]) = 10 * nat_of_digits ds + digit_val c"
  by (simp add: nat_of_digits_def)

lemma nat_of_digits_str_nat: "nat_of_digits (str_nat n) = n"
proof (induction n rule: str_nat.induct)
  case (1 n)
  show ?case
  proof (cases "n < 10")
    case True
    then show ?thesis
      by (subst str_nat.simps) (simp add: nat_of_digits_def digit_char_props)
  next
    case False
    with 1 have "nat_of_digits (str_nat (n div 10)) = n div 10" by simp
    with False show ?thesis
      by (subst str_nat.simps) (simp add: nat_of_digits_snoc digit_char_props)
  qed
qed

lemma str_nat_hd_zero: "hd (str_nat n) = CHR ''0'' \<Longrightarrow> str_nat n = ''0''"
proof (induction n rule: str_nat.induct)
  case (1 n)
  show ?case
  proof (cases "n < 10")
    case True
    with "1.prems" have "digit_char n = CHR ''0''" by (subst (asm) str_nat.simps) simp
    with True have "n = 0" by (simp add: digit_char_zero)
    then show ?thesis by (subst str_nat.simps) (simp add: digit_char_def)
  next
    case False
    then have eq: "str_nat n = str_nat (n div 10) @ [digit_char (n mod 10)]"
      by (subst str_nat.simps) simp
    with "1.prems" have "hd (str_nat (n div 10)) = CHR ''0''"
      by (simp add: str_nat_nonempty)
    with 1 False have "str_nat (n div 10) = ''0''" by simp
    then have "nat_of_digits (str_nat (n div 10)) = 0" by (simp add: nat_of_digits_def digit_val_def)
    then have "n div 10 = 0" by (simp add: nat_of_digits_str_nat)
    with False show ?thesis by simp
  qed
qed

lemma delim_props:
  assumes "rest = CHR 0x2C # r \<or> rest = CHR 0x7D # r"
  shows "rest \<noteq> []" "\<not> is_digit (hd rest)" "hd rest \<noteq> CHR ''.''" "hd rest \<noteq> CHR ''e''" "hd rest \<noteq> CHR ''E''"
    "\<not> is_ws (hd rest)"
  using assms by (auto simp: is_digit_def is_ws_def)

lemma takeWhile_digits:
  "list_all is_digit ds \<Longrightarrow> rest \<noteq> [] \<Longrightarrow> \<not> is_digit (hd rest) \<Longrightarrow> takeWhile is_digit (ds @ rest) = ds"
  by (induction ds) (auto simp: neq_Nil_conv)

lemma scan_digits:
  assumes "rest \<noteq> []" "\<not> is_digit (hd rest)" "hd rest \<noteq> CHR ''.''" "hd rest \<noteq> CHR ''e''" "hd rest \<noteq> CHR ''E''"
  shows "scan_number (str_nat n @ rest) = Inr (JInt (int n), rest)"
    and "scan_number (CHR ''-'' # str_nat n @ rest) = Inr (JInt (- int n), rest)"
proof -
  obtain d ds where d: "str_nat n = d # ds"
    using str_nat_nonempty[of n] by (cases "str_nat n") auto
  have digs: "is_digit d" "list_all is_digit ds"
    using str_nat_digits[of n] d by auto
  have nm: "d \<noteq> CHR ''-''" using digs(1) by (auto simp: is_digit_def)
  have tw: "takeWhile is_digit (ds @ rest) = ds"
    using takeWhile_digits[OF digs(2) assms(1,2)] .
  have z: "d = CHR ''0'' \<Longrightarrow> ds = []"
    using str_nat_hd_zero[of n] d by simp
  have v: "nat_of_digits (d # ds) = n" using nat_of_digits_str_nat[of n] d by simp
  show "scan_number (str_nat n @ rest) = Inr (JInt (int n), rest)"
    using assms digs nm tw z v
    by (auto simp: scan_number_def d Let_def)
  show "scan_number (CHR ''-'' # str_nat n @ rest) = Inr (JInt (- int n), rest)"
    using assms digs nm tw z v
    by (auto simp: scan_number_def d Let_def)
qed

lemma scan_number_str_int:
  assumes "rest \<noteq> []" "\<not> is_digit (hd rest)" "hd rest \<noteq> CHR ''.''" "hd rest \<noteq> CHR ''e''" "hd rest \<noteq> CHR ''E''"
  shows "scan_number (str_int i @ rest) = Inr (JInt i, rest)"
proof (cases "i < 0")
  case True
  then show ?thesis using scan_digits(2)[OF assms, of "nat (- i)"] by (simp add: str_int_def)
next
  case False
  then show ?thesis using scan_digits(1)[OF assms, of "nat i"] by (simp add: str_int_def)
qed

lemma skip_ws_nonws: "\<not> is_ws c \<Longrightarrow> skip_ws (c # cs) = c # cs"
  by (simp add: skip_ws_def)

lemma skip_ws_space: "skip_ws (CHR 0x20 # s) = skip_ws s"
  by (simp add: skip_ws_def is_ws_def)

lemma str_int_head:
  "\<exists>c cs. str_int i = c # cs \<and> (is_digit c \<or> (c = CHR ''-'' \<and> cs \<noteq> [] \<and> is_digit (hd cs)))"
proof -
  have *: "\<exists>c cs. str_nat n = c # cs \<and> is_digit c" for n
    using str_nat_nonempty[of n] str_nat_digits[of n] by (cases "str_nat n") auto
  show ?thesis
  proof (cases "i < 0")
    case True
    from *[of "nat (- i)"] obtain c cs where "str_nat (nat (- i)) = c # cs" "is_digit c" by blast
    with True show ?thesis by (simp add: str_int_def)
  next
    case False
    from *[of "nat i"] obtain c cs where "str_nat (nat i) = c # cs" "is_digit c" by blast
    with False show ?thesis by (simp add: str_int_def)
  qed
qed

lemma digit_not_keyword:
  assumes "is_digit c"
  shows "c \<noteq> dquote" "c \<noteq> CHR 0x7B" "c \<noteq> CHR 0x5B" "c \<noteq> CHR ''n''" "c \<noteq> CHR ''t''"
    "c \<noteq> CHR ''f''" "c \<noteq> CHR ''N''" "c \<noteq> CHR ''I''" "c \<noteq> CHR ''-''"
  using assms by (auto simp: is_digit_def dquote_def)

lemma scan_atom_digit:
  "is_digit c \<Longrightarrow> scan_atom (c # cs) = scan_number (c # cs)"
  using digit_not_keyword[of c] by (simp add: scan_atom_def)

lemma scan_atom_minus:
  "is_digit d \<Longrightarrow> scan_atom (CHR ''-'' # d # ds) = scan_number (CHR ''-'' # d # ds)"
  using digit_not_keyword[of d] by (simp add: scan_atom_def dquote_def)

lemma scan_atom_int:
  assumes "rest \<noteq> []" "\<not> is_digit (hd rest)" "hd rest \<noteq> CHR ''.''" "hd rest \<noteq> CHR ''e''" "hd rest \<noteq> CHR ''E''"
  shows "scan_atom (str_int i @ rest) = Inr (JInt i, rest)"
proof -
  from str_int_head[of i] obtain c cs where
    h: "str_int i = c # cs" "is_digit c \<or> (c = CHR ''-'' \<and> cs \<noteq> [] \<and> is_digit (hd cs))"
    by blast
  have "scan_atom (str_int i @ rest) = scan_number (str_int i @ rest)"
  proof (cases "is_digit c")
    case True
    then show ?thesis
      unfolding h(1) by (simp add: scan_atom_digit)
  next
    case False
    with h(2) obtain d ds where "c = CHR ''-''" "cs = d # ds" "is_digit d"
      by (cases cs) auto
    then show ?thesis
      unfolding h(1) by (simp add: scan_atom_minus)
  qed
  then show ?thesis using scan_number_str_int[OF assms] by simp
qed

lemma scan_atom_dumps:
  assumes "plain_atom a" and "rest = CHR 0x2C # r \<or> rest = CHR 0x7D # r"
  shows "scan_atom (dumps_atom a @ rest) = Inr (a, rest)"
proof (cases a)
  case JNull
  then show ?thesis by (simp add: scan_atom_def dquote_def)
next
  case (JBool b)
  then show ?thesis by (simp add: scan_atom_def dquote_def)
next
  case (JInt i)
  then show ?thesis using scan_atom_int[OF delim_props(1-5)[OF assms(2)]] by simp
next
  case (JStr s)
  with assms(1) have "plain s" by simp
  with JStr show ?thesis
    by (simp add: scan_atom_def encode_plain scanstring_plain)
qed

lemma dumps_atom_head: "\<exists>c cs. dumps_atom a = c # cs \<and> \<not> is_ws c"
proof (cases a)
  case (JInt i)
  from str_int_head[of i] obtain c cs where
    "str_int i = c # cs" "is_digit c \<or> (c = CHR ''-'' \<and> cs \<noteq> [] \<and> is_digit (hd cs))" by blast
  with JInt show ?thesis by (auto simp: is_ws_def is_digit_def)
qed (auto simp: is_ws_def py_encode_basestring_ascii_def dquote_def)

lemma dumps_items_Cons:
  "dumps_items ((k, v) # its) =
     py_encode_basestring_ascii k @ '': '' @ dumps_atom v @
       (if its = [] then [] else '', '' @ dumps_items its)"
  by (cases its) auto

lemma dumps_items_head:
  "its \<noteq> [] \<Longrightarrow> \<exists>cs. dumps_items its = dquote # cs"
  by (cases its) (auto simp: dumps_items_Cons py_encode_basestring_ascii_def)

lemma dict_setitem_fresh: "k \<notin> fst ` set d \<Longrightarrow> dict_setitem d k v = d @ [(k, v)]"
  by (induction d) auto

lemma dict_setitem_keys: "fst ` set (dict_setitem d k v) = insert k (fst ` set d)"
proof (induction d)
  case Nil
  show ?case by simp
next
  case (Cons p d)
  obtain k' v' where p: "p = (k', v')" by (cases p)
  show ?case
  proof (cases "k' = k")
    case True
    then show ?thesis by (simp add: p)
  next
    case False
    then show ?thesis using Cons.IH by (simp add: p insert_commute)
  qed
qed

lemma dict_setitem_distinct: "distinct (map fst d) \<Longrightarrow> distinct (map fst (dict_setitem d k v))"
  by (induction d) (auto simp: dict_setitem_keys)

lemma dict_setitem_plain:
  "plain_items d \<Longrightarrow> plain k \<Longrightarrow> plain_atom v \<Longrightarrow> plain_items (dict_setitem d k v)"
  by (induction d) (auto simp: plain_items_def)

lemma foldl_setitem_distinct:
  "distinct (map fst acc) \<Longrightarrow> distinct (map fst (foldl (\<lambda>d (k, v). dict_setitem d k v) acc pairs))"
  by (induction pairs arbitrary: acc) (auto simp: dict_setitem_distinct)

lemma foldl_setitem_plain:
  "plain_items acc \<Longrightarrow> plain_items pairs \<Longrightarrow> plain_items (foldl (\<lambda>d (k, v). dict_setitem d k v) acc pairs)"
proof (induction pairs arbitrary: acc)
  case Nil
  then show ?case by simp
next
  case (Cons p pairs)
  obtain k v where p: "p = (k, v)" by (cases p)
  from Cons.prems have a: "plain_items acc" "plain k" "plain_atom v" "plain_items pairs"
    by (auto simp: p plain_items_def)
  from Cons.IH[OF dict_setitem_plain[OF a(1-3)] a(4)] show ?case by (simp add: p)
qed

lemma foldl_setitem_id:
  "distinct (map fst (acc @ pairs)) \<Longrightarrow> foldl (\<lambda>d (k, v). dict_setitem d k v) acc pairs = acc @ pairs"
proof (induction pairs arbitrary: acc)
  case Nil
  then show ?case by simp
next
  case (Cons p pairs)
  obtain k v where p: "p = (k, v)" by (cases p)
  from Cons.prems have fresh: "k \<notin> fst ` set acc" by (auto simp: p)
  from Cons.prems have "distinct (map fst ((acc @ [(k, v)]) @ pairs))" by (simp add: p)
  from Cons.IH[OF this] fresh show ?case by (simp add: p dict_setitem_fresh)
qed

lemma py_dict_distinct: "distinct (map fst (py_dict pairs))"
  unfolding py_dict_def by (rule foldl_setitem_distinct) simp

lemma py_dict_plain: "plain_items pairs \<Longrightarrow> plain_items (py_dict pairs)"
  unfolding py_dict_def by (rule foldl_setitem_plain) (simp_all add: plain_items_def)

lemma py_dict_id: "distinct (map fst pairs) \<Longrightarrow> py_dict pairs = pairs"
  unfolding py_dict_def using foldl_setitem_id[of "[]" pairs] by simp

lemma parse_members_dumps:
  assumes "plain_items ((k, v) # its)"
  shows "parse_members (tl (dumps_items ((k, v) # its)) @ CHR 0x7D # rest) acc
           = Inr (acc @ (k, v) # its, rest)"
  using assms
proof (induction its arbitrary: k v acc)
  case Nil
  then have pk: "plain k" and pv: "plain_atom v" by (simp_all add: plain_items_def)
  obtain c cs where hdv: "dumps_atom v = c # cs" "\<not> is_ws c" using dumps_atom_head by blast
  have shape: "tl (dumps_items [(k, v)]) @ CHR 0x7D # rest =
      k @ dquote # CHR 0x3A # CHR 0x20 # dumps_atom v @ CHR 0x7D # rest"
    by (simp add: encode_plain[OF pk])
  have a: "scan_atom (dumps_atom v @ CHR 0x7D # rest) = Inr (v, CHR 0x7D # rest)"
    by (rule scan_atom_dumps[OF pv]) simp
  have ws: "skip_ws (CHR 0x20 # dumps_atom v @ CHR 0x7D # rest) = dumps_atom v @ CHR 0x7D # rest"
    using hdv by (simp add: skip_ws_space skip_ws_nonws)
  show ?case
    unfolding shape
    by (subst parse_members.simps)
       (simp add: scanstring_plain[OF pk] skip_ws_nonws is_ws_def ws a)
next
  case (Cons item its)
  obtain k' v' where item: "item = (k', v')" by (cases item)
  from Cons.prems have pk: "plain k" and pv: "plain_atom v"
    and rest_plain: "plain_items ((k', v') # its)"
    by (simp_all add: plain_items_def item)
  obtain c cs where hdv: "dumps_atom v = c # cs" "\<not> is_ws c" using dumps_atom_head by blast
  obtain tl' where tl': "dumps_items ((k', v') # its) = dquote # tl'"
    using dumps_items_head[of "(k', v') # its"] by auto
  then have tl_eq: "tl' = tl (dumps_items ((k', v') # its))" by simp
  have shape: "tl (dumps_items ((k, v) # item # its)) @ CHR 0x7D # rest =
      k @ dquote # CHR 0x3A # CHR 0x20 # dumps_atom v @ CHR 0x2C # CHR 0x20 # dquote # tl' @ CHR 0x7D # rest"
    using tl' by (simp add: encode_plain[OF pk] item del: dumps_items.simps add: dumps_items_Cons)
  have a: "scan_atom (dumps_atom v @ CHR 0x2C # CHR 0x20 # dquote # tl' @ CHR 0x7D # rest)
      = Inr (v, CHR 0x2C # CHR 0x20 # dquote # tl' @ CHR 0x7D # rest)"
    by (rule scan_atom_dumps[OF pv]) simp
  have ws: "skip_ws (CHR 0x20 # dumps_atom v @ CHR 0x2C # CHR 0x20 # dquote # tl' @ CHR 0x7D # rest)
      = dumps_atom v @ CHR 0x2C # CHR 0x20 # dquote # tl' @ CHR 0x7D # rest"
    using hdv by (simp add: skip_ws_space skip_ws_nonws)
  have ws2: "skip_ws (CHR 0x20 # dquote # tl' @ CHR 0x7D # rest) = dquote # tl' @ CHR 0x7D # rest"
    by (simp add: skip_ws_space skip_ws_nonws is_ws_def dquote_def)
  have IH: "parse_members (tl' @ CHR 0x7D # rest) (acc @ [(k, v)]) = Inr ((acc @ [(k, v)]) @ (k', v') # its, rest)"
    unfolding tl_eq by (rule Cons.IH[OF rest_plain])
  show ?case
    unfolding shape
    by (subst parse_members.simps)
       (simp add: scanstring_plain[OF pk] skip_ws_nonws is_ws_def ws a ws2 IH item)
qed

lemma json_loads_dumps_object:
  assumes "plain_items d" and "distinct (map fst d)"
  shows "json_loads (json_dumps (Object d)) = Inr (Object d)"
proof (cases d)
  case Nil
  then show ?thesis
    by (simp add: json_loads_def scan_value_def scan_object_def skip_ws_def is_ws_def)
next
  case (Cons item its)
  obtain k v where item: "item = (k, v)" by (cases item)
  obtain t where t: "dumps_items d = dquote # t"
    using dumps_items_head[of d] Cons by auto
  then have t_eq: "t = tl (dumps_items ((k, v) # its))" by (simp add: Cons item)
  have pm: "parse_members (t @ CHR 0x7D # []) [] = Inr ([] @ (k, v) # its, [])"
    unfolding t_eq by (rule parse_members_dumps) (use assms(1) Cons item in simp)
  have "json_dumps (Object d) = CHR 0x7B # dquote # t @ [CHR 0x7D]"
    by (simp add: t)
  then show ?thesis
    using pm assms(2)
    by (simp add: json_loads_def scan_value_def scan_object_def skip_ws_nonws is_ws_def dquote_def
        skip_ws_def py_dict_id Cons item)
qed

lemma json_loads_dumps_py_dict:
  "plain_items pairs \<Longrightarrow>
     json_loads (json_dumps (Object (py_dict pairs))) = Inr (Object (py_dict pairs))"
  by (rule json_loads_dumps_object[OF py_dict_plain py_dict_distinct])

lemma dumps_example:
  \<open>json_dumps (Object (py_dict [(''enable_token_budget'', JBool True), (''token_budget'', JInt 1000),
       (''token_budget_time_period'', JInt 12)]))
   = ''{"enable_token_budget": true, "token_budget": 1000, "token_budget_time_period": 12}''\<close>
  by (simp add: py_dict_def py_encode_basestring_ascii_def escape_char_def dquote_def backslash_def
      str_int_def str_nat.simps digit_char_def)

text \<open>
  Claim C10. For a valid update (\<open>0 \<le> b\<close>, \<open>1 \<le> p\<close>) of the token-budget settings, with the
  token budget globally enabled and key constants that need no JSON escaping, a read on any
  world whose store holds the settings the update wrote returns the dict that the update
  serialised: \<^verbatim>\<open>json.loads\<close> undoes \<^verbatim>\<open>json.dumps\<close> on it. When the three key constants are
  distinct that dict is the three-entry mapping of the keys to \<open>e\<close>, \<open>b\<close> and \<open>p\<close>.
\<close>

theorem C10_token_budget_round_trip:
  assumes enabled: "TOKEN_BUDGET_GLOBALLY_ENABLED c"
    and keys: "plain (ENABLE_TOKEN_BUDGET c)" "plain (TOKEN_BUDGET c)"
              "plain (TOKEN_BUDGET_TIME_PERIOD c)"
    and valid: "0 \<le> b" "1 \<le> p"
    and upd: "update_token_budget_settings c e b p w = (r, w1)"
    and same: "kv_store w2 (TOKEN_BUDGET_SETTINGS c) = kv_store w1 (TOKEN_BUDGET_SETTINGS c)"
  shows "r = Inr [(''message'', ''Token budget settings updated successfully.'')]
       \<and> get_token_budget_settings c w2 =
           (Inr (Object (py_dict [(ENABLE_TOKEN_BUDGET c, JBool e),
                                  (TOKEN_BUDGET c, JInt b),
                                  (TOKEN_BUDGET_TIME_PERIOD c, JInt p)])), w2)
       \<and> (distinct [ENABLE_TOKEN_BUDGET c, TOKEN_BUDGET c, TOKEN_BUDGET_TIME_PERIOD c] \<longrightarrow>
            py_dict [(ENABLE_TOKEN_BUDGET c, JBool e), (TOKEN_BUDGET c, JInt b),
                     (TOKEN_BUDGET_TIME_PERIOD c, JInt p)]
            = [(ENABLE_TOKEN_BUDGET c, JBool e), (TOKEN_BUDGET c, JInt b),
               (TOKEN_BUDGET_TIME_PERIOD c, JInt p)])"
proof -
  let ?d = "[(ENABLE_TOKEN_BUDGET c, JBool e), (TOKEN_BUDGET c, JInt b),
             (TOKEN_BUDGET_TIME_PERIOD c, JInt p)]"
  have pl: "plain_items ?d" using keys by (simp add: plain_items_def)
  have rt: "json_loads (json_dumps (Object (py_dict ?d))) = Inr (Object (py_dict ?d))"
    by (rule json_loads_dumps_py_dict[OF pl])
  from upd valid have r: "r = Inr [(''message'', ''Token budget settings updated successfully.'')]"
    and w1: "kv_store w1 (TOKEN_BUDGET_SETTINGS c) = Some (KVStr (json_dumps (Object (py_dict ?d))))"
    by (auto simp: update_token_budget_settings_def Let_def bindH_def kv_put_def returnH_def)
  from same w1 have "kv_store w2 (TOKEN_BUDGET_SETTINGS c)
      = Some (KVStr (json_dumps (Object (py_dict ?d))))" by simp
  then have get: "get_token_budget_settings c w2 = (Inr (Object (py_dict ?d)), w2)"
    using enabled rt
    by (simp add: get_token_budget_settings_def except_ConfigNotFoundError_def bindH_def
        kv_load_def liftE_def loads_value_def)
  have "distinct [ENABLE_TOKEN_BUDGET c, TOKEN_BUDGET c, TOKEN_BUDGET_TIME_PERIOD c] \<longrightarrow>
      py_dict ?d = ?d"
    using py_dict_id[of ?d] by simp
  with r get show ?thesis by blast
qed

theorem C10_witness:
  "get_token_budget_settings stub_budget_consts
     (snd (update_token_budget_settings stub_budget_consts True 1000 12 (stub_world ())))
   = (Inr (Object [(''enable_token_budget'', JBool True), (''token_budget'', JInt 1000),
                   (''token_budget_time_period'', JInt 12)]),
      snd (update_token_budget_settings stub_budget_consts True 1000 12 (stub_world ())))"
proof -
  let ?u = "update_token_budget_settings stub_budget_consts True 1000 12
              (stub_world () :: (int, unit) world)"
  have keys: "plain (ENABLE_TOKEN_BUDGET stub_budget_consts)"
    "plain (TOKEN_BUDGET stub_budget_consts)"
    "plain (TOKEN_BUDGET_TIME_PERIOD stub_budget_consts)"
    by (simp_all add: stub_budget_consts_def plain_def plain_char_def dquote_def backslash_def)
  have en: "TOKEN_BUDGET_GLOBALLY_ENABLED stub_budget_consts"
    by (simp add: stub_budget_consts_def)
  from C10_token_budget_round_trip[OF en keys, of 1000 12 True "stub_world ()" "fst ?u" "snd ?u" "snd ?u"]
  show ?thesis
    by (simp add: stub_budget_consts_def)
qed

end
